theory Spec2Isabelle
  imports Main
begin

section \<open>Host primitives used by the service\<close>

text \<open>
  The service is TypeScript. Its strings are modelled as HOL strings whose characters are
  read as the code points 0..255 (ASCII and Latin-1). Three host functions decide how
  \<open>PokemonService\<close> behaves: \<open>String.prototype.toLowerCase\<close> (and its locale variant, which
  agrees with it outside the Turkic and Lithuanian locales), the unary plus that turns a
  string into a number, and Mongoose's \<open>isValidObjectId\<close>.
\<close>

subsection \<open>Lower-casing\<close>

definition toLowerChar :: "char \<Rightarrow> char" where
  "toLowerChar c =
     (let n = (of_char c :: nat)
      in if (65 \<le> n \<and> n \<le> 90) \<or> (192 \<le> n \<and> n \<le> 222 \<and> n \<noteq> 215)
         then char_of (n + 32) else c)"

definition toLowerCase :: "string \<Rightarrow> string" where
  "toLowerCase s = map toLowerChar s"

text \<open>\<open>toLocaleLowerCase\<close> under a locale without special casing rules.\<close>

definition toLocaleLowerCase :: "string \<Rightarrow> string" where
  "toLocaleLowerCase s = toLowerCase s"

definition isUpperCase :: "char \<Rightarrow> bool" where
  "isUpperCase c = (toLowerChar c \<noteq> c)"

subsection \<open>Unary plus on a string\<close>

text \<open>
  \<open>+term\<close> applies the StringToNumber grammar of the language: surrounding white space is
  dropped, the empty string is 0, a literal is \<open>Infinity\<close>, a decimal literal with optional
  sign, fraction and exponent, or an unsigned hexadecimal, octal or binary integer literal;
  everything else is NaN. The mathematical value of the literal is then rounded to the
  nearest 64-bit float, ties to the even significand, values from \<open>2^1024 - 2^970\<close> on
  becoming an infinity and values up to \<open>2^-1075\<close> becoming zero. Ordinals in the store are
  integers, so the result only records whether the string is NaN, denotes (after rounding)
  an integer, or denotes another number (a fraction or an infinity), which no stored
  ordinal equals.
\<close>

datatype number = NaN | Integer int | NonInteger

definition isNaN :: "number \<Rightarrow> bool" where
  "isNaN x = (x = NaN)"

definition isStrWhiteSpaceChar :: "char \<Rightarrow> bool" where
  "isStrWhiteSpaceChar c = ((of_char c :: nat) \<in> {9, 10, 11, 12, 13, 32, 160})"

definition trim :: "string \<Rightarrow> string" where
  "trim s = rev (dropWhile isStrWhiteSpaceChar (rev (dropWhile isStrWhiteSpaceChar s)))"

definition isDigit :: "char \<Rightarrow> bool" where
  "isDigit c = (48 \<le> (of_char c :: nat) \<and> (of_char c :: nat) \<le> 57)"

definition isHexDigit :: "char \<Rightarrow> bool" where
  "isHexDigit c =
     (let n = (of_char c :: nat)
      in (48 \<le> n \<and> n \<le> 57) \<or> (65 \<le> n \<and> n \<le> 70) \<or> (97 \<le> n \<and> n \<le> 102))"

definition hexDigitValue :: "char \<Rightarrow> nat" where
  "hexDigitValue c =
     (let n = (of_char c :: nat)
      in if n \<le> 57 then n - 48 else if n \<le> 70 then n - 55 else n - 87)"

definition isRadixDigit :: "nat \<Rightarrow> char \<Rightarrow> bool" where
  "isRadixDigit b c = (isHexDigit c \<and> hexDigitValue c < b)"

definition radixValue :: "int \<Rightarrow> string \<Rightarrow> int" where
  "radixValue b s = foldl (\<lambda>a c. b * a + int (hexDigitValue c)) 0 s"

function bitLength :: "int \<Rightarrow> nat" where
  "bitLength n = (if n \<le> 0 then 0 else Suc (bitLength (n div 2)))"
  by pat_completeness auto
termination
  by (relation "measure nat") auto

declare bitLength.simps [simp del]

text \<open>
  The Number value for \<open>m * 10^k\<close>, \<open>m\<close> not negative. With \<open>m * 10^k = N / D\<close>, the exponent
  \<open>e\<close> is the one with \<open>2^52 \<le> N / (D * 2^e) < 2^53\<close>, not below \<open>-1074\<close> (the subnormal
  range); the significand is \<open>N / (D * 2^e)\<close> rounded to the nearest integer, ties to even.
\<close>

definition numberValue :: "int \<Rightarrow> int \<Rightarrow> number" where
  "numberValue m k =
     (if m \<le> 0 then Integer 0
      else
        let N = (if 0 \<le> k then m * 10 ^ nat k else m);
            D = (if 0 \<le> k then 1 else 10 ^ nat (- k));
            e0 = int (bitLength N) - int (bitLength D) - 53;
            e1 = (if N * 2 ^ nat (- e0) < 2 ^ 53 * (D * 2 ^ nat e0) then e0 else e0 + 1);
            e = max e1 (- 1074);
            A = N * 2 ^ nat (- e);
            B = D * 2 ^ nat e;
            n0 = A div B;
            r = A mod B;
            n = (if 2 * r < B then n0
                 else if B < 2 * r then n0 + 1
                 else if even n0 then n0 else n0 + 1)
        in if 0 \<le> e
           then (if 2 ^ 1024 \<le> n * 2 ^ nat e then NonInteger else Integer (n * 2 ^ nat e))
           else if 2 ^ nat (- e) dvd n then Integer (n div 2 ^ nat (- e))
           else NonInteger)"

text \<open>An integer is a Number value when rounding leaves it as it is.\<close>

definition isNumberValue :: "int \<Rightarrow> bool" where
  "isNumberValue i = (numberValue \<bar>i\<bar> 0 = Integer \<bar>i\<bar>)"

definition nonDecimalLiteral :: "string \<Rightarrow> int option" where
  "nonDecimalLiteral s =
     (case s of
        z # x # ds \<Rightarrow>
          (let b = (if x = CHR ''x'' \<or> x = CHR ''X'' then 16
                    else if x = CHR ''o'' \<or> x = CHR ''O'' then 8
                    else if x = CHR ''b'' \<or> x = CHR ''B'' then 2 else (0::nat))
           in if z = CHR ''0'' \<and> b \<noteq> 0 \<and> ds \<noteq> [] \<and> list_all (isRadixDigit b) ds
              then Some (radixValue (int b) ds) else None)
      | _ \<Rightarrow> None)"

definition isExponentIndicator :: "char \<Rightarrow> bool" where
  "isExponentIndicator c = (c = CHR ''e'' \<or> c = CHR ''E'')"

definition signedInteger :: "string \<Rightarrow> int option" where
  "signedInteger s =
     (let (neg, ds) = (case s of
                         c # r \<Rightarrow> if c = CHR ''-'' then (True, r)
                                  else if c = CHR ''+'' then (False, r) else (False, s)
                       | [] \<Rightarrow> (False, s))
      in if ds \<noteq> [] \<and> list_all isDigit ds
         then Some (if neg then - radixValue 10 ds else radixValue 10 ds)
         else None)"

definition unsignedDecimalLiteral :: "string \<Rightarrow> number" where
  "unsignedDecimalLiteral s =
     (if s = ''Infinity'' then NonInteger
      else
        let m = takeWhile (\<lambda>c. \<not> isExponentIndicator c) s;
            x = dropWhile (\<lambda>c. \<not> isExponentIndicator c) s;
            ip = takeWhile isDigit m;
            r = dropWhile isDigit m;
            fp = (case r of [] \<Rightarrow> Some []
                  | c # ds \<Rightarrow> if c = CHR ''.'' \<and> list_all isDigit ds then Some ds else None);
            ex = (case x of [] \<Rightarrow> Some 0 | _ # ds \<Rightarrow> signedInteger ds)
        in case (fp, ex) of
             (Some fd, Some e) \<Rightarrow>
               if ip = [] \<and> fd = [] then NaN
               else numberValue (radixValue 10 (ip @ fd)) (e - int (length fd))
           | _ \<Rightarrow> NaN)"

definition negate :: "number \<Rightarrow> number" where
  "negate x = (case x of Integer i \<Rightarrow> Integer (- i) | _ \<Rightarrow> x)"

definition toNumber :: "string \<Rightarrow> number" where
  "toNumber term =
     (let t = trim term
      in if t = [] then Integer 0
         else case nonDecimalLiteral t of
                Some n \<Rightarrow> numberValue n 0
              | None \<Rightarrow>
                  (case t of
                     c # r \<Rightarrow> if c = CHR ''-'' then negate (unsignedDecimalLiteral r)
                              else if c = CHR ''+'' then unsignedDecimalLiteral r
                              else unsignedDecimalLiteral t
                   | [] \<Rightarrow> NaN))"

subsection \<open>Storage identifiers\<close>

text \<open>
  Mongoose's \<open>isValidObjectId\<close> accepts, among strings, the 24-digit hexadecimal form and
  any 12-byte string (as the driver shipped with Mongoose 6 and 7 does); casting yields the
  identifier in canonical lower-case hexadecimal.
\<close>

definition hexDigit :: "nat \<Rightarrow> char" where
  "hexDigit n = (if n < 10 then char_of (48 + n) else char_of (87 + n))"

definition hexByte :: "char \<Rightarrow> string" where
  "hexByte c = [hexDigit ((of_char c :: nat) div 16), hexDigit ((of_char c :: nat) mod 16)]"

definition castObjectId :: "string \<Rightarrow> string option" where
  "castObjectId v =
     (if length v = 12 \<and> list_all (\<lambda>c. (of_char c :: nat) < 128) v
        then Some (concat (map hexByte v))
      else if length v = 24 \<and> list_all isHexDigit v
        then Some (toLowerCase v)
      else None)"

definition isValidObjectId :: "string \<Rightarrow> bool" where
  "isValidObjectId v = (castObjectId v \<noteq> None)"


section \<open>Data model\<close>

text \<open>
  \<open>CreatePokemonDto\<close> is the class of \<open>dto/create-pokemon.dto.ts\<close>; its decorators are the
  validation the routing layer applies before the service is called. The field \<open>no\<close> is a
  \<open>number\<close> that \<open>IsInt\<close> accepts: an integer that is a Number value.
\<close>

record CreatePokemonDto =
  name :: string
  no :: int

definition validCreatePokemonDto :: "CreatePokemonDto \<Rightarrow> bool" where
  "validCreatePokemonDto dto =
     (3 \<le> length (name dto) \<and> isNumberValue (no dto) \<and> 0 < no dto)"

text \<open>
  Modelled from the spec: the entity class \<open>Pokemon\<close> (\<open>entities/pokemon.entity\<close>) is not
  among the sources. A record has a name, an ordinal \<open>no\<close> and the storage identifier
  assigned on creation (\<open>_id\<close> in the store, \<open>oid\<close> here), with a unique-key constraint on
  each of the three.
\<close>

record Pokemon = CreatePokemonDto +
  oid :: string

text \<open>
  Modelled from the spec: \<open>UpdatePokemonDto\<close> (\<open>dto/update-pokemon.dto\<close>) is not among
  the sources either; it is the partial form of \<open>CreatePokemonDto\<close>, every field optional.
\<close>

record UpdatePokemonDto =
  upd_name :: "string option"
  upd_no :: "int option"

text \<open>Modelled from the spec: \<open>PaginationDto\<close>, an optional page size and an optional offset.\<close>

record PaginationDto =
  limit :: "nat option"
  offset :: "nat option"

section \<open>The document store behind the Mongoose model\<close>

text \<open>
  A rejected store call carries an error object; the service reads its \<open>code\<close> and its
  \<open>keyValue\<close> (the key of the violated unique index).
\<close>

datatype key_value = KeyId string | KeyName string | KeyNo int

record store_error =
  code :: "int option"
  keyValue :: "key_value option"

definition duplicateKeyError :: "key_value \<Rightarrow> store_error" where
  "duplicateKeyError kv = \<lparr>code = Some 11000, keyValue = Some kv\<rparr>"

definition castError :: store_error where
  "castError = \<lparr>code = None, keyValue = None\<rparr>"

datatype call =
    CreateCall CreatePokemonDto
  | FindOneByNo number
  | FindById string
  | FindOneByName string
  | UpdateOneCall string UpdatePokemonDto
  | DeleteOneCall string
  | FindCall nat nat

text \<open>
  The state the service works on: the documents of the collection in insertion order, the
  position of the driver's identifier generator, the outcome the environment holds for each
  coming round trip to the store (\<open>Some e\<close>: that call is rejected with \<open>e\<close>; \<open>None\<close> or
  nothing left: it reaches the store), and the calls issued so far.
\<close>

record db =
  docs :: "Pokemon list"
  nextId :: nat
  faults :: "store_error option list"
  calls :: "call list"

definition logCall :: "call \<Rightarrow> db \<Rightarrow> db" where
  "logCall c s = s\<lparr>calls := calls s @ [c]\<rparr>"

definition roundTrip :: "db \<Rightarrow> store_error option \<times> db" where
  "roundTrip s = (case faults s of [] \<Rightarrow> (None, s) | f # fs \<Rightarrow> (f, s\<lparr>faults := fs\<rparr>))"

text \<open>
  The driver assigns \<open>_id\<close> before the insert is sent. Its generator is stood for by a
  counter written as 24 hexadecimal digits; the store checks the identifier against its
  unique index like any other key, so nothing below relies on the generator being fresh.
\<close>

fun hexString :: "nat \<Rightarrow> nat \<Rightarrow> string" where
  "hexString 0 n = []"
| "hexString (Suc k) n = hexString k (n div 16) @ [hexDigit (n mod 16)]"

definition objectId :: "nat \<Rightarrow> string" where
  "objectId n = hexString 24 n"

text \<open>
  Modelled from the spec: the unique indexes that the entity schema declares on \<open>name\<close>
  and \<open>no\<close>, beside the store's own on \<open>_id\<close>. A write that would give two documents
  the same key is rejected with code 11000 and the key of one violated index; which one is
  reported when several are violated is fixed here as \<open>_id\<close>, \<open>name\<close>, \<open>no\<close>.
\<close>

definition duplicateKey :: "Pokemon list \<Rightarrow> Pokemon \<Rightarrow> key_value option" where
  "duplicateKey ds p =
     (if list_ex (\<lambda>q. oid q = oid p) ds then Some (KeyId (oid p))
      else if list_ex (\<lambda>q. name q = name p) ds then Some (KeyName (name p))
      else if list_ex (\<lambda>q. no q = no p) ds then Some (KeyNo (no p))
      else None)"

definition Model_create :: "CreatePokemonDto \<Rightarrow> db \<Rightarrow> (store_error + Pokemon) \<times> db" where
  "Model_create dto s =
     (case roundTrip (logCall (CreateCall dto) s) of
        (Some e, s') \<Rightarrow> (Inl e, s')
      | (None, s') \<Rightarrow>
          (let p = \<lparr>name = name dto, no = no dto, oid = objectId (nextId s')\<rparr>;
               s'' = s'\<lparr>nextId := Suc (nextId s')\<rparr>
           in case duplicateKey (docs s'') p of
                Some kv \<Rightarrow> (Inl (duplicateKeyError kv), s'')
              | None \<Rightarrow> (Inr p, s''\<lparr>docs := docs s'' @ [p]\<rparr>)))"

definition Model_findOne_no :: "number \<Rightarrow> db \<Rightarrow> (store_error + Pokemon option) \<times> db" where
  "Model_findOne_no n s =
     (case roundTrip (logCall (FindOneByNo n) s) of
        (Some e, s') \<Rightarrow> (Inl e, s')
      | (None, s') \<Rightarrow> (Inr (find (\<lambda>p. Integer (no p) = n) (docs s')), s'))"

definition Model_findOne_name :: "string \<Rightarrow> db \<Rightarrow> (store_error + Pokemon option) \<times> db" where
  "Model_findOne_name n s =
     (case roundTrip (logCall (FindOneByName n) s) of
        (Some e, s') \<Rightarrow> (Inl e, s')
      | (None, s') \<Rightarrow> (Inr (find (\<lambda>p. name p = n) (docs s')), s'))"

definition Model_findById :: "string \<Rightarrow> db \<Rightarrow> (store_error + Pokemon option) \<times> db" where
  "Model_findById v s =
     (let s0 = logCall (FindById v) s
      in case castObjectId v of
           None \<Rightarrow> (Inl castError, s0)
         | Some i \<Rightarrow>
             (case roundTrip s0 of
                (Some e, s') \<Rightarrow> (Inl e, s')
              | (None, s') \<Rightarrow> (Inr (find (\<lambda>p. oid p = i) (docs s')), s')))"

text \<open>\<open>find().limit(l).skip(k).sort({ no: 1 })\<close>: sort, skip, then limit; a limit of 0 is no limit.\<close>

definition Model_find :: "nat \<Rightarrow> nat \<Rightarrow> db \<Rightarrow> (store_error + Pokemon list) \<times> db" where
  "Model_find l k s =
     (case roundTrip (logCall (FindCall l k) s) of
        (Some e, s') \<Rightarrow> (Inl e, s')
      | (None, s') \<Rightarrow>
          (let page = drop k (sort_key no (docs s'))
           in (Inr (if l = 0 then page else take l page), s')))"

text \<open>The effect of \<open>$set\<close> with the supplied fields, and equally of the object spread.\<close>

definition spread :: "Pokemon \<Rightarrow> UpdatePokemonDto \<Rightarrow> Pokemon" where
  "spread p dto =
     p\<lparr>name := (case upd_name dto of Some n \<Rightarrow> n | None \<Rightarrow> name p),
       no := (case upd_no dto of Some k \<Rightarrow> k | None \<Rightarrow> no p)\<rparr>"

fun updateFirst :: "('a \<Rightarrow> bool) \<Rightarrow> ('a \<Rightarrow> 'a) \<Rightarrow> 'a list \<Rightarrow> 'a list" where
  "updateFirst P f [] = []"
| "updateFirst P f (x # xs) = (if P x then f x # xs else x # updateFirst P f xs)"

fun removeFirst :: "('a \<Rightarrow> bool) \<Rightarrow> 'a list \<Rightarrow> 'a list" where
  "removeFirst P [] = []"
| "removeFirst P (x # xs) = (if P x then xs else x # removeFirst P xs)"

definition updateConflict :: "Pokemon list \<Rightarrow> string \<Rightarrow> UpdatePokemonDto \<Rightarrow> key_value option" where
  "updateConflict ds i dto =
     (case (case upd_name dto of
              Some n \<Rightarrow> if list_ex (\<lambda>q. oid q \<noteq> i \<and> name q = n) ds then Some (KeyName n) else None
            | None \<Rightarrow> None) of
        Some kv \<Rightarrow> Some kv
      | None \<Rightarrow>
          (case upd_no dto of
             Some k \<Rightarrow> if list_ex (\<lambda>q. oid q \<noteq> i \<and> no q = k) ds then Some (KeyNo k) else None
           | None \<Rightarrow> None))"

text \<open>\<open>pokemon.updateOne(dto)\<close>: an update of the stored document with the loaded one's \<open>_id\<close>.\<close>

definition Document_updateOne :: "Pokemon \<Rightarrow> UpdatePokemonDto \<Rightarrow> db \<Rightarrow> (store_error + unit) \<times> db" where
  "Document_updateOne pokemon dto s =
     (case roundTrip (logCall (UpdateOneCall (oid pokemon) dto) s) of
        (Some e, s') \<Rightarrow> (Inl e, s')
      | (None, s') \<Rightarrow>
          (if list_ex (\<lambda>q. oid q = oid pokemon) (docs s')
           then case updateConflict (docs s') (oid pokemon) dto of
                  Some kv \<Rightarrow> (Inl (duplicateKeyError kv), s')
                | None \<Rightarrow>
                    (Inr (), s'\<lparr>docs := updateFirst (\<lambda>q. oid q = oid pokemon)
                                          (\<lambda>q. spread q dto) (docs s')\<rparr>)
           else (Inr (), s')))"

record DeleteResult =
  deletedCount :: nat

definition Model_deleteOne :: "string \<Rightarrow> db \<Rightarrow> (store_error + DeleteResult) \<times> db" where
  "Model_deleteOne v s =
     (let s0 = logCall (DeleteOneCall v) s
      in case castObjectId v of
           None \<Rightarrow> (Inl castError, s0)
         | Some i \<Rightarrow>
             (case roundTrip s0 of
                (Some e, s') \<Rightarrow> (Inl e, s')
              | (None, s') \<Rightarrow>
                  (if list_ex (\<lambda>q. oid q = i) (docs s')
                   then (Inr \<lparr>deletedCount = 1\<rparr>,
                         s'\<lparr>docs := removeFirst (\<lambda>q. oid q = i) (docs s')\<rparr>)
                   else (Inr \<lparr>deletedCount = 0\<rparr>, s'))))"

section \<open>PokemonService\<close>

text \<open>
  What a service method can throw: the three HTTP exceptions it raises itself (the spec's
  \<open>NotFound\<close>, \<open>DuplicateKey\<close> and \<open>Unavailable\<close>; each carries the variable part of its
  message), or the error of a rejected store call that no handler caught.
\<close>

datatype exception =
    NotFoundException string
  | BadRequestException "key_value option"
  | InternalServerErrorException
  | Uncaught store_error

definition handleExceptions :: "store_error \<Rightarrow> exception" where
  "handleExceptions error =
     (if code error = Some 11000 then BadRequestException (keyValue error)
      else InternalServerErrorException)"

definition create ::
  "CreatePokemonDto \<Rightarrow> db \<Rightarrow> (exception + Pokemon) \<times> CreatePokemonDto \<times> db" where
  "create createPokemonDto s =
     (let dto = createPokemonDto\<lparr>name := toLocaleLowerCase (name createPokemonDto)\<rparr>
      in case Model_create dto s of
           (Inr pokemon, s') \<Rightarrow> (Inr pokemon, dto, s')
         | (Inl error, s') \<Rightarrow> (Inl (handleExceptions error), dto, s'))"

definition findAll ::
  "nat \<Rightarrow> PaginationDto \<Rightarrow> db \<Rightarrow> (exception + Pokemon list) \<times> db" where
  "findAll defaultLimit paginationDto s =
     (let l = (case limit paginationDto of None \<Rightarrow> defaultLimit | Some v \<Rightarrow> v);
          k = (case offset paginationDto of None \<Rightarrow> 0 | Some v \<Rightarrow> v)
      in case Model_find l k s of
           (Inr ps, s') \<Rightarrow> (Inr ps, s')
         | (Inl error, s') \<Rightarrow> (Inl (Uncaught error), s'))"

text \<open>An awaited store call outside any \<open>try\<close>: a rejection leaves the method at once.\<close>

definition await ::
  "(store_error + 'a) \<times> db \<Rightarrow> ('a \<Rightarrow> db \<Rightarrow> (exception + 'b) \<times> db) \<Rightarrow> (exception + 'b) \<times> db" where
  "await r k = (case r of (Inl error, s) \<Rightarrow> (Inl (Uncaught error), s) | (Inr v, s) \<Rightarrow> k v s)"

definition findOne :: "string \<Rightarrow> db \<Rightarrow> (exception + Pokemon) \<times> db" where
  "findOne term s =
     await (if \<not> isNaN (toNumber term) then Model_findOne_no (toNumber term) s
            else (Inr None, s))
       (\<lambda>p1 s1.
     await (if p1 = None \<and> isValidObjectId term then Model_findById term s1
            else (Inr p1, s1))
       (\<lambda>p2 s2.
     await (if p2 = None then Model_findOne_name (toLocaleLowerCase term) s2
            else (Inr p2, s2))
       (\<lambda>p3 s3.
     case p3 of
       None \<Rightarrow> (Inl (NotFoundException term), s3)
     | Some pokemon \<Rightarrow> (Inr pokemon, s3))))"

definition truthy :: "string option \<Rightarrow> bool" where
  "truthy v = (case v of None \<Rightarrow> False | Some n \<Rightarrow> n \<noteq> [])"

definition update ::
  "string \<Rightarrow> UpdatePokemonDto \<Rightarrow> db \<Rightarrow> (exception + Pokemon) \<times> UpdatePokemonDto \<times> db" where
  "update term updatePokemonDto s =
     (case findOne term s of
        (Inl e, s1) \<Rightarrow> (Inl e, updatePokemonDto, s1)
      | (Inr pokemon, s1) \<Rightarrow>
          (let dto = (if truthy (upd_name updatePokemonDto)
                      then updatePokemonDto\<lparr>upd_name :=
                             map_option toLowerCase (upd_name updatePokemonDto)\<rparr>
                      else updatePokemonDto)
           in case Document_updateOne pokemon dto s1 of
                (Inr u, s2) \<Rightarrow> (Inr (spread pokemon dto), dto, s2)
              | (Inl error, s2) \<Rightarrow> (Inl (handleExceptions error), dto, s2)))"

record Acknowledgement =
  message :: string

definition remove :: "string \<Rightarrow> db \<Rightarrow> (exception + Acknowledgement) \<times> db" where
  "remove v s =
     (case Model_deleteOne v s of
        (Inl error, s') \<Rightarrow> (Inl (Uncaught error), s')
      | (Inr r, s') \<Rightarrow>
          (if deletedCount r = 0 then (Inl (NotFoundException v), s')
           else (Inr \<lparr>message = ''Pokemon eliminado''\<rparr>, s')))"


section \<open>Vocabulary of the properties\<close>

text \<open>The decimal numeral of an ordinal, as a caller writes it into a term.\<close>

fun decimal :: "nat \<Rightarrow> string" where
  "decimal n = (if n < 10 then [hexDigit n] else decimal (n div 10) @ [hexDigit (n mod 10)])"

declare decimal.simps [simp del]

text \<open>Calls that write to the collection, as opposed to point queries and page reads.\<close>

fun isWrite :: "call \<Rightarrow> bool" where
  "isWrite (CreateCall dto) = True"
| "isWrite (UpdateOneCall i dto) = True"
| "isWrite (DeleteOneCall i) = True"
| "isWrite c = False"

text \<open>
  The rejections with which the store answered the calls issued between two states: every
  call that reaches the driver takes the next outcome the environment holds.
\<close>

definition rejections :: "db \<Rightarrow> db \<Rightarrow> store_error list" where
  "rejections s s' =
     concat (map (\<lambda>f. case f of None \<Rightarrow> [] | Some e \<Rightarrow> [e])
                 (take (length (calls s') - length (calls s)) (faults s)))"

text \<open>A document holds a key when the keyed field has that value.\<close>

fun holdsKey :: "Pokemon \<Rightarrow> key_value \<Rightarrow> bool" where
  "holdsKey p (KeyId i) = (oid p = i)"
| "holdsKey p (KeyName n) = (name p = n)"
| "holdsKey p (KeyNo k) = (no p = k)"

text \<open>No stored name contains an upper-case character.\<close>

definition lowerCaseNames :: "Pokemon list \<Rightarrow> bool" where
  "lowerCaseNames ds = list_all (\<lambda>p. list_all (\<lambda>c. \<not> isUpperCase c) (name p)) ds"

text \<open>Stores and errors used to exercise the theorems.\<close>

definition bulbasaur :: Pokemon where
  "bulbasaur = \<lparr>name = ''bulbasaur'', no = 123, oid = ''000000000000000000000000''\<rparr>"

definition numericName :: Pokemon where
  "numericName = \<lparr>name = ''123'', no = 5, oid = ''000000000000000000000001''\<rparr>"

definition networkError :: store_error where
  "networkError = \<lparr>code = None, keyValue = None\<rparr>"


definition numericNameStore :: db where
  "numericNameStore =
     \<lparr>docs = [numericName], nextId = 2, faults = [], calls = []\<rparr>"

definition catalog :: db where
  "catalog = \<lparr>docs = [bulbasaur], nextId = 1, faults = [], calls = []\<rparr>"

definition faultyStore :: db where
  "faultyStore =
     \<lparr>docs = [bulbasaur], nextId = 1, faults = [Some networkError], calls = []\<rparr>"


definition pikachuDto :: CreatePokemonDto where
  "pikachuDto = \<lparr>name = ''Pikachu'', no = 25\<rparr>"

definition pikachu :: Pokemon where
  "pikachu = \<lparr>name = ''pikachu'', no = 25, oid = ''000000000000000000000001''\<rparr>"

definition catalogWithPikachu :: db where
  "catalogWithPikachu =
     \<lparr>docs = [bulbasaur, pikachu], nextId = 2, faults = [],
      calls = [CreateCall \<lparr>name = ''pikachu'', no = 25\<rparr>]\<rparr>"

definition numericDto :: CreatePokemonDto where
  "numericDto = \<lparr>name = ''123'', no = 5\<rparr>"

definition catalogWithNumericName :: db where
  "catalogWithNumericName =
     \<lparr>docs = [bulbasaur, numericName], nextId = 2, faults = [],
      calls = [CreateCall numericDto]\<rparr>"

definition venusaurUpdate :: UpdatePokemonDto where
  "venusaurUpdate = \<lparr>upd_name = Some ''Venusaur'', upd_no = Some 3\<rparr>"

definition shoutedUpdate :: UpdatePokemonDto where
  "shoutedUpdate = \<lparr>upd_name = Some ''PIKA'', upd_no = None\<rparr>"

definition duplicateNameError :: store_error where
  "duplicateNameError = \<lparr>code = Some 11000, keyValue = Some (KeyName ''bulbasaur'')\<rparr>"

definition bulbasaurRename :: UpdatePokemonDto where
  "bulbasaurRename = \<lparr>upd_name = Some ''Bulbasaur'', upd_no = None\<rparr>"

definition shoutedPikachuDto :: CreatePokemonDto where
  "shoutedPikachuDto = \<lparr>name = ''PIKACHU'', no = 26\<rparr>"

definition ivysaur :: Pokemon where
  "ivysaur = \<lparr>name = ''ivysaur'', no = 2, oid = ''000000000000000000000001''\<rparr>"

definition venusaur :: Pokemon where
  "venusaur = \<lparr>name = ''venusaur'', no = 3, oid = ''000000000000000000000002''\<rparr>"

definition charmander :: Pokemon where
  "charmander = \<lparr>name = ''charmander'', no = 4, oid = ''000000000000000000000003''\<rparr>"

definition charmeleon :: Pokemon where
  "charmeleon = \<lparr>name = ''charmeleon'', no = 5, oid = ''000000000000000000000004''\<rparr>"

definition pokedex :: db where
  "pokedex =
     \<lparr>docs = [venusaur, bulbasaur\<lparr>no := 1\<rparr>, charmeleon, ivysaur, charmander],
      nextId = 5, faults = [], calls = []\<rparr>"

definition renamedBulbasaur :: Pokemon where
  "renamedBulbasaur = \<lparr>name = ''venusaur'', no = 3, oid = ''000000000000000000000000''\<rparr>"

definition renamedCatalog :: db where
  "renamedCatalog =
     \<lparr>docs = [renamedBulbasaur], nextId = 1, faults = [],
      calls = [FindOneByNo (Integer 123),
               UpdateOneCall ''000000000000000000000000''
                 \<lparr>upd_name = Some ''venusaur'', upd_no = Some 3\<rparr>]\<rparr>"

section \<open>Numerals and lower-casing\<close>

lemma of_char_hexDigit: "d < 10 \<Longrightarrow> (of_char (hexDigit d) :: nat) = 48 + d"
  by (simp add: hexDigit_def)

lemma isDigit_hexDigit: "d < 10 \<Longrightarrow> isDigit (hexDigit d)"
  by (simp add: isDigit_def of_char_hexDigit)

lemma hexDigitValue_hexDigit: "d < 10 \<Longrightarrow> hexDigitValue (hexDigit d) = d"
  by (simp add: hexDigitValue_def of_char_hexDigit)

lemma decimal_nonempty: "decimal n \<noteq> []"
  by (subst decimal.simps) simp

lemma decimal_digits: "list_all isDigit (decimal n)"
  by (induction n rule: decimal.induct) (subst decimal.simps, simp add: isDigit_hexDigit)

lemma radixValue_snoc:
  "radixValue b (xs @ [c]) = b * radixValue b xs + int (hexDigitValue c)"
  by (simp add: radixValue_def)

lemma radixValue_decimal: "radixValue 10 (decimal n) = int n"
proof (induction n rule: decimal.induct)
  case (1 n)
  show ?case
  proof (cases "n < 10")
    case True
    then show ?thesis
      by (subst decimal.simps) (simp add: radixValue_def hexDigitValue_hexDigit)
  next
    case False
    then have "radixValue 10 (decimal (n div 10)) = int (n div 10)" using 1 by simp
    then have "radixValue 10 (decimal n) = 10 * int (n div 10) + int (n mod 10)"
      using False by (subst decimal.simps) (simp add: radixValue_snoc hexDigitValue_hexDigit)
    then show ?thesis by (simp add: zdiv_int zmod_int)
  qed
qed

lemma bitLength_pos: "0 < n \<Longrightarrow> bitLength n = Suc (bitLength (n div 2))"
  by (subst bitLength.simps) simp

lemma bitLength_nonpos: "n \<le> 0 \<Longrightarrow> bitLength n = 0"
  by (subst bitLength.simps) simp

lemma bitLength_lower: "0 < n \<Longrightarrow> 2 ^ bitLength n \<le> 2 * n"
proof (induction n rule: bitLength.induct)
  case (1 n)
  show ?case
  proof (cases "0 < n div 2")
    case True
    then have "2 ^ bitLength (n div 2) \<le> 2 * (n div 2)" using 1 by simp
    then show ?thesis using 1(2) by (simp add: bitLength_pos)
  next
    case False
    then have "n = 1" using 1(2) by presburger
    then show ?thesis by (simp add: bitLength_pos bitLength_nonpos)
  qed
qed

lemma bitLength_upper: "n < 2 ^ bitLength n"
proof (induction n rule: bitLength.induct)
  case (1 n)
  show ?case
  proof (cases "0 < n")
    case True
    then have "n div 2 < 2 ^ bitLength (n div 2)" using 1 by simp
    then show ?thesis using True by (simp add: bitLength_pos)
  next
    case False
    then show ?thesis by (simp add: bitLength_nonpos)
  qed
qed

lemma bitLength_le: "0 < n \<Longrightarrow> n < 2 ^ k \<Longrightarrow> bitLength n \<le> k"
proof -
  assume p: "0 < n" and b: "n < 2 ^ k"
  have "(2::int) ^ bitLength n \<le> 2 * n" using p by (rule bitLength_lower)
  also have "\<dots> < 2 * 2 ^ k" using b by simp
  finally have lt: "(2::int) ^ bitLength n < 2 ^ Suc k" by simp
  have "bitLength n < Suc k"
    by (rule power_less_imp_less_exp[of "2::int"]) (simp, rule lt)
  then show ?thesis by simp
qed

lemma bitLength_one: "bitLength 1 = 1"
  by (simp add: bitLength_pos bitLength_nonpos)

lemma numberValue_small:
  assumes p: "0 \<le> m" and b: "m < 2 ^ 53"
  shows "numberValue m 0 = Integer m"
proof (cases "m = 0")
  case True
  then show ?thesis by (simp add: numberValue_def)
next
  case False
  with p have pos: "0 < m" by simp
  define L where "L = bitLength m"
  have L53: "L \<le> 53" unfolding L_def using pos b by (rule bitLength_le)
  have L1: "1 \<le> L" unfolding L_def using pos by (simp add: bitLength_pos)
  have low: "2 ^ L \<le> 2 * m" unfolding L_def using pos by (rule bitLength_lower)
  have e0: "int L - int (bitLength 1) - 53 = - int (54 - L)"
    using L53 by (simp add: bitLength_one)
  have big: "\<not> m * 2 ^ (54 - L) < 2 ^ 53"
  proof -
    have "(2::int) ^ 53 * 2 = 2 ^ L * 2 ^ (54 - L)"
      using L53 by (simp add: power_add[symmetric])
    also have "\<dots> \<le> (2 * m) * 2 ^ (54 - L)" using low by (simp add: mult_right_mono)
    finally show ?thesis by simp
  qed
  have e1: "- int (54 - L) + 1 = - int (53 - L)" using L53 by simp
  have mx: "max (- int (53 - L)) (- 1074) = - int (53 - L)" by simp
  show ?thesis
  proof (cases "L = 53")
    case True
    then show ?thesis
      using pos b big
      by (simp add: numberValue_def Let_def L_def[symmetric] bitLength_one)
  next
    case False
    with L53 have lt: "L < 53" by simp
    then have neg: "\<not> 0 \<le> - int (53 - L)" by simp
    show ?thesis
      using pos big lt
      by (simp add: numberValue_def Let_def L_def[symmetric] e0 e1 mx)
  qed
qed

lemma isNumberValue_small: "\<bar>i\<bar> < 2 ^ 53 \<Longrightarrow> isNumberValue i"
  by (simp add: isNumberValue_def numberValue_small)

lemma isDigit_not_special:
  assumes "isDigit c"
  shows "\<not> isStrWhiteSpaceChar c" "\<not> isExponentIndicator c" "c \<noteq> CHR ''-''" "c \<noteq> CHR ''+''"
    "c \<noteq> CHR ''I''" "c \<noteq> CHR ''x''" "c \<noteq> CHR ''X''" "c \<noteq> CHR ''o''" "c \<noteq> CHR ''O''"
    "c \<noteq> CHR ''b''" "c \<noteq> CHR ''B''"
  using assms by (auto simp: isDigit_def isStrWhiteSpaceChar_def isExponentIndicator_def)

lemma trim_digits:
  assumes "ds \<noteq> []" "list_all isDigit ds"
  shows "trim ds = ds"
proof -
  have "hd ds \<in> set ds" "last ds \<in> set ds" using assms(1) by simp_all
  then have "isDigit (hd ds)" "isDigit (last ds)"
    using assms(2) by (simp_all add: list_all_iff)
  then have a: "\<not> isStrWhiteSpaceChar (hd ds)" and b: "\<not> isStrWhiteSpaceChar (last ds)"
    by (simp_all add: isDigit_not_special(1))
  have "dropWhile isStrWhiteSpaceChar ds = ds"
    using a assms(1) by (cases ds) simp_all
  moreover have "dropWhile isStrWhiteSpaceChar (rev ds) = rev ds"
    using b assms(1) by (cases "rev ds") (simp_all add: last_rev hd_rev[symmetric])
  ultimately show ?thesis by (simp add: trim_def)
qed

lemma nonDecimalLiteral_digits:
  assumes "list_all isDigit ds"
  shows "nonDecimalLiteral ds = None"
proof (cases ds)
  case Nil
  then show ?thesis by (simp add: nonDecimalLiteral_def)
next
  case (Cons z r)
  show ?thesis
  proof (cases r)
    case Nil
    then show ?thesis using Cons by (simp add: nonDecimalLiteral_def)
  next
    case (Cons x t)
    then have "isDigit x" using assms \<open>ds = z # r\<close> by simp
    then have "x \<noteq> CHR ''x''" "x \<noteq> CHR ''X''" "x \<noteq> CHR ''o''" "x \<noteq> CHR ''O''"
      "x \<noteq> CHR ''b''" "x \<noteq> CHR ''B''"
      by (simp_all add: isDigit_not_special)
    then show ?thesis using Cons \<open>ds = z # r\<close> by (simp add: nonDecimalLiteral_def)
  qed
qed

lemma unsignedDecimalLiteral_digits:
  assumes "ds \<noteq> []" "list_all isDigit ds"
  shows "unsignedDecimalLiteral ds = numberValue (radixValue 10 ds) 0"
proof -
  have "isDigit (hd ds)" using assms by (cases ds) simp_all
  then have "hd ds \<noteq> CHR ''I''" by (simp add: isDigit_not_special)
  then have ne: "ds \<noteq> ''Infinity''" by auto
  have all: "\<forall>c \<in> set ds. \<not> isExponentIndicator c"
    using assms(2) by (simp add: list_all_iff isDigit_not_special(2))
  have m: "takeWhile (\<lambda>c. \<not> isExponentIndicator c) ds = ds"
    using all by (simp add: takeWhile_eq_all_conv)
  have x: "dropWhile (\<lambda>c. \<not> isExponentIndicator c) ds = []"
    using all by simp
  have ip: "takeWhile isDigit ds = ds" and r: "dropWhile isDigit ds = []"
    using assms(2) by (simp_all add: list_all_iff takeWhile_eq_all_conv)
  show ?thesis
    using ne assms(1) by (simp add: unsignedDecimalLiteral_def m x ip r)
qed

lemma toNumber_digits:
  assumes "ds \<noteq> []" "list_all isDigit ds"
  shows "toNumber ds = numberValue (radixValue 10 ds) 0"
proof -
  obtain c r where ds: "ds = c # r" using assms(1) by (cases ds) auto
  then have "isDigit c" using assms(2) by simp
  then have c: "c \<noteq> CHR ''-''" "c \<noteq> CHR ''+''"
    by (simp_all add: isDigit_not_special)
  have t: "trim (c # r) = c # r"
    using trim_digits[OF assms] ds by simp
  have n: "nonDecimalLiteral (c # r) = None"
    using nonDecimalLiteral_digits[OF assms(2)] ds by simp
  have "toNumber ds = unsignedDecimalLiteral ds"
    using c by (simp add: toNumber_def t n ds)
  then show ?thesis by (simp add: unsignedDecimalLiteral_digits[OF assms])
qed

lemma toNumber_decimal:
  "isNumberValue (int n) \<Longrightarrow> toNumber (decimal n) = Integer (int n)"
  by (simp add: toNumber_digits decimal_nonempty decimal_digits radixValue_decimal
      isNumberValue_def)

lemma toNumber_small:
  assumes "ds \<noteq> []" "list_all isDigit ds" "radixValue 10 ds = i" "0 \<le> i" "i < 2 ^ 53"
  shows "toNumber ds = Integer i"
  using assms by (simp add: toNumber_digits numberValue_small)

lemma toLowerChar_idem: "toLowerChar (toLowerChar c) = toLowerChar c"
  by (auto simp: toLowerChar_def Let_def)

lemma toLowerCase_idem: "toLowerCase (toLowerCase s) = toLowerCase s"
  by (simp add: toLowerCase_def toLowerChar_idem)

lemma toLowerCase_no_upper: "list_all (\<lambda>c. \<not> isUpperCase c) (toLowerCase s)"
  by (simp add: toLowerCase_def isUpperCase_def list_all_iff toLowerChar_idem)

lemma no_upper_fixed: "list_all (\<lambda>c. \<not> isUpperCase c) s \<Longrightarrow> toLowerCase s = s"
  by (induction s) (simp_all add: toLowerCase_def isUpperCase_def)

section \<open>Store calls on a healthy store\<close>

lemma logCall_fields:
  "docs (logCall c s) = docs s" "faults (logCall c s) = faults s"
  "nextId (logCall c s) = nextId s" "calls (logCall c s) = calls s @ [c]"
  by (simp_all add: logCall_def)

lemma roundTrip_healthy: "faults s = [] \<Longrightarrow> roundTrip s = (None, s)"
  by (simp add: roundTrip_def)

lemma roundTrip_rejected: "faults s = Some e # fs \<Longrightarrow> roundTrip s = (Some e, s\<lparr>faults := fs\<rparr>)"
  by (simp add: roundTrip_def)

lemma Model_findOne_no_healthy:
  "faults s = [] \<Longrightarrow>
   Model_findOne_no n s = (Inr (find (\<lambda>p. Integer (no p) = n) (docs s)), logCall (FindOneByNo n) s)"
  by (simp add: Model_findOne_no_def roundTrip_healthy logCall_fields)

lemma Model_findOne_name_healthy:
  "faults s = [] \<Longrightarrow>
   Model_findOne_name n s = (Inr (find (\<lambda>p. name p = n) (docs s)), logCall (FindOneByName n) s)"
  by (simp add: Model_findOne_name_def roundTrip_healthy logCall_fields)

lemma Model_findById_healthy:
  "faults s = [] \<Longrightarrow> castObjectId v = Some i \<Longrightarrow>
   Model_findById v s = (Inr (find (\<lambda>p. oid p = i) (docs s)), logCall (FindById v) s)"
  by (simp add: Model_findById_def roundTrip_healthy logCall_fields)

lemma logCall_twice: "logCall d (logCall c s) = s\<lparr>calls := calls s @ [c, d]\<rparr>"
  by (simp add: logCall_def)

lemma logCall_thrice: "logCall e (logCall d (logCall c s)) = s\<lparr>calls := calls s @ [c, d, e]\<rparr>"
  by (simp add: logCall_def)


lemma find_snoc:
  "find P (xs @ [x]) = (case find P xs of Some y \<Rightarrow> Some y | None \<Rightarrow> if P x then Some x else None)"
  by (induction xs) simp_all

lemma find_None_conv: "(find P xs = None) = (\<forall>x \<in> set xs. \<not> P x)"
  by (induction xs) simp_all

lemma find_Some_in: "find P xs = Some x \<Longrightarrow> x \<in> set xs \<and> P x"
  by (induction xs) (auto split: if_splits)

lemma roundTrip_frame:
  "docs (snd (roundTrip s)) = docs s" "calls (snd (roundTrip s)) = calls s"
  "nextId (snd (roundTrip s)) = nextId s"
  by (simp_all add: roundTrip_def split: list.splits)

lemma roundTrip_cases:
  obtains "roundTrip s = (None, s)" "faults s = []"
  | fs where "roundTrip s = (None, s\<lparr>faults := fs\<rparr>)" "faults s = None # fs"
  | e fs where "roundTrip s = (Some e, s\<lparr>faults := fs\<rparr>)" "faults s = Some e # fs"
  by (cases "faults s"; simp add: roundTrip_def) (metis option.exhaust)

lemma Model_findOne_no_frame:
  "docs (snd (Model_findOne_no n s)) = docs s"
  "calls (snd (Model_findOne_no n s)) = calls s @ [FindOneByNo n]"
  by (simp_all add: Model_findOne_no_def roundTrip_def logCall_def split: list.splits option.splits)

lemma Model_findOne_name_frame:
  "docs (snd (Model_findOne_name n s)) = docs s"
  "calls (snd (Model_findOne_name n s)) = calls s @ [FindOneByName n]"
  by (simp_all add: Model_findOne_name_def roundTrip_def logCall_def split: list.splits option.splits)

lemma Model_findById_frame:
  "docs (snd (Model_findById n s)) = docs s"
  "calls (snd (Model_findById n s)) = calls s @ [FindById n]"
  by (simp_all add: Model_findById_def Let_def roundTrip_def logCall_def split: list.splits option.splits)

lemma await_frame:
  assumes "docs (snd r) = d" "\<exists>qs. calls (snd r) = c @ qs \<and> list_all (\<lambda>c. \<not> isWrite c) qs"
    and "\<And>v s. docs s = d \<Longrightarrow> \<exists>qs. calls s = c @ qs \<and> list_all (\<lambda>c. \<not> isWrite c) qs \<Longrightarrow>
           docs (snd (k v s)) = d \<and> (\<exists>qs. calls (snd (k v s)) = c @ qs \<and> list_all (\<lambda>c. \<not> isWrite c) qs)"
  shows "docs (snd (await r k)) = d \<and> (\<exists>qs. calls (snd (await r k)) = c @ qs \<and> list_all (\<lambda>c. \<not> isWrite c) qs)"
  using assms by (cases r) (auto simp: await_def split: sum.splits)

lemma findOne_frame:
  "docs (snd (findOne term s)) = docs s \<and>
   (\<exists>qs. calls (snd (findOne term s)) = calls s @ qs \<and> list_all (\<lambda>c. \<not> isWrite c) qs)"
  unfolding findOne_def
  apply (rule await_frame)
    apply (simp add: Model_findOne_no_frame)
   apply (simp add: Model_findOne_no_frame)
  apply (rule await_frame)
    apply (simp add: Model_findById_frame)
   apply (auto simp add: Model_findById_frame)[1]
  apply (rule await_frame)
    apply (simp add: Model_findOne_name_frame)
   apply (auto simp add: Model_findOne_name_frame)[1]
  apply (auto split: option.splits)
  done

lemma findOne_healthy:
  assumes "faults s = []"
  shows "fst (findOne term s) =
     (case (if isNaN (toNumber term) then None
            else find (\<lambda>p. Integer (no p) = toNumber term) (docs s)) of
        Some p \<Rightarrow> Inr p
      | None \<Rightarrow>
          (case (case castObjectId term of None \<Rightarrow> None
                 | Some i \<Rightarrow> find (\<lambda>p. oid p = i) (docs s)) of
             Some p \<Rightarrow> Inr p
           | None \<Rightarrow>
               (case find (\<lambda>p. name p = toLowerCase term) (docs s) of
                  Some p \<Rightarrow> Inr p
                | None \<Rightarrow> Inl (NotFoundException term))))"
  using assms
  by (simp add: findOne_def await_def isValidObjectId_def toLocaleLowerCase_def
      Model_findOne_no_healthy Model_findOne_name_healthy Model_findById_healthy
      logCall_fields split: option.splits)

section \<open>Term resolution\<close>

text \<open>
  C1 (as amended). For a term that is a number, \<open>findOne\<close> issues the ordinal query first,
  as exactly one point query. If a record has that ordinal it is returned and nothing else is
  asked. Otherwise resolution goes on: one query by storage identifier when the term has the
  shape of one, then, unless that found a record, one query by lower-cased name;
  \<open>NotFoundException\<close> is raised only when every attempted strategy found nothing.
\<close>

theorem findOne_numeric_term:
  assumes "faults s = []" and "\<not> isNaN (toNumber term)"
  shows "(case find (\<lambda>p. Integer (no p) = toNumber term) (docs s) of
            Some p \<Rightarrow> findOne term s = (Inr p, s\<lparr>calls := calls s @ [FindOneByNo (toNumber term)]\<rparr>)
          | None \<Rightarrow>
              (case castObjectId term of
                 None \<Rightarrow>
                   (case find (\<lambda>p. name p = toLowerCase term) (docs s) of
                      Some p \<Rightarrow> findOne term s =
                        (Inr p, s\<lparr>calls := calls s @
                           [FindOneByNo (toNumber term), FindOneByName (toLowerCase term)]\<rparr>)
                    | None \<Rightarrow> findOne term s =
                        (Inl (NotFoundException term), s\<lparr>calls := calls s @
                           [FindOneByNo (toNumber term), FindOneByName (toLowerCase term)]\<rparr>))
               | Some i \<Rightarrow>
                   (case find (\<lambda>p. oid p = i) (docs s) of
                      Some p \<Rightarrow> findOne term s =
                        (Inr p, s\<lparr>calls := calls s @
                           [FindOneByNo (toNumber term), FindById term]\<rparr>)
                    | None \<Rightarrow>
                        (case find (\<lambda>p. name p = toLowerCase term) (docs s) of
                           Some p \<Rightarrow> findOne term s =
                             (Inr p, s\<lparr>calls := calls s @
                                [FindOneByNo (toNumber term), FindById term,
                                 FindOneByName (toLowerCase term)]\<rparr>)
                         | None \<Rightarrow> findOne term s =
                             (Inl (NotFoundException term), s\<lparr>calls := calls s @
                                [FindOneByNo (toNumber term), FindById term,
                                 FindOneByName (toLowerCase term)]\<rparr>)))))"
  using assms
  by (simp add: findOne_def await_def isValidObjectId_def toLocaleLowerCase_def
      Model_findOne_no_healthy Model_findOne_name_healthy Model_findById_healthy
      logCall_fields logCall_twice logCall_thrice logCall_def
      split: option.splits)

text \<open>
  The theorem at the term \<open>123\<close> on a store whose only record is named \<open>123\<close>, and at a
  decimal literal that rounds to 1 on a store holding the ordinal 1.
\<close>

theorem findOne_numeric_term_witness:
  "faults numericNameStore = [] \<and> \<not> isNaN (toNumber ''123'') \<and>
   findOne ''123'' numericNameStore =
     (Inr numericName,
      numericNameStore\<lparr>calls := [FindOneByNo (Integer 123), FindOneByName ''123'']\<rparr>) \<and>
   faults pokedex = [] \<and> \<not> isNaN (toNumber ''1.00000000000000000001'') \<and>
   findOne ''1.00000000000000000001'' pokedex =
     (Inr (bulbasaur\<lparr>no := 1\<rparr>), pokedex\<lparr>calls := [FindOneByNo (Integer 1)]\<rparr>)"
proof -
  have h1: "faults numericNameStore = []" by (simp add: numericNameStore_def)
  have n: "toNumber ''123'' = Integer 123" by code_simp
  have h2: "\<not> isNaN (toNumber ''123'')" by (simp add: n isNaN_def)
  have e1: "find (\<lambda>p. Integer (no p) = toNumber ''123'') (docs numericNameStore) = None"
    by (simp add: n numericNameStore_def numericName_def)
  have e2: "castObjectId ''123'' = None" by code_simp
  have e3: "toLowerCase ''123'' = ''123''" by code_simp
  have e4: "find (\<lambda>p. name p = toLowerCase ''123'') (docs numericNameStore) = Some numericName"
    by (simp add: e3 numericNameStore_def numericName_def)
  have c: "calls numericNameStore = []" by (simp add: numericNameStore_def)
  have "findOne ''123'' numericNameStore =
     (Inr numericName, numericNameStore\<lparr>calls := calls numericNameStore @
        [FindOneByNo (toNumber ''123''), FindOneByName (toLowerCase ''123'')]\<rparr>)"
    using findOne_numeric_term [OF h1 h2] by (simp only: e1 e2 e4 option.case)
  then have w1: "findOne ''123'' numericNameStore =
     (Inr numericName,
      numericNameStore\<lparr>calls := [FindOneByNo (Integer 123), FindOneByName ''123'']\<rparr>)"
    by (simp add: e3 n c)
  let ?t = "''1.00000000000000000001''"
  have g1: "faults pokedex = []" by (simp add: pokedex_def)
  have m: "toNumber ?t = Integer 1" by code_simp
  have g2: "\<not> isNaN (toNumber ?t)" by (simp add: m isNaN_def)
  have f1: "find (\<lambda>p. Integer (no p) = toNumber ?t) (docs pokedex) = Some (bulbasaur\<lparr>no := 1\<rparr>)"
    by (simp add: m pokedex_def venusaur_def bulbasaur_def)
  have cp: "calls pokedex = []" by (simp add: pokedex_def)
  have "findOne ?t pokedex =
     (Inr (bulbasaur\<lparr>no := 1\<rparr>), pokedex\<lparr>calls := calls pokedex @ [FindOneByNo (toNumber ?t)]\<rparr>)"
    using findOne_numeric_term [OF g1 g2] by (simp only: f1 option.case)
  then have w2: "findOne ?t pokedex =
     (Inr (bulbasaur\<lparr>no := 1\<rparr>), pokedex\<lparr>calls := [FindOneByNo (Integer 1)]\<rparr>)"
    by (simp add: m cp)
  from h1 h2 w1 g1 g2 w2 show ?thesis by (intro conjI)
qed

text \<open>
  C1 as stated fails: \<open>123\<close> is a number, no record has ordinal 123, and yet \<open>findOne\<close>
  goes on to the name strategy and returns the record named \<open>123\<close>.
\<close>

theorem findOne_numeric_term_counterexample:
  "\<not> isNaN (toNumber ''123'') \<and> map no (docs numericNameStore) = [5] \<and>
   fst (findOne ''123'' numericNameStore) = Inr numericName \<and>
   calls (snd (findOne ''123'' numericNameStore)) =
     [FindOneByNo (Integer 123), FindOneByName ''123'']"
  by code_simp

section \<open>Creating records\<close>

lemma duplicateKey_None:
  "(duplicateKey ds p = None) =
   (\<forall>q \<in> set ds. oid q \<noteq> oid p \<and> name q \<noteq> name p \<and> no q \<noteq> no p)"
  by (auto simp: duplicateKey_def list_ex_iff)

lemma duplicateKey_Some:
  "duplicateKey ds p = Some kv \<Longrightarrow> holdsKey p kv \<and> (\<exists>q \<in> set ds. holdsKey q kv)"
  by (auto simp: duplicateKey_def list_ex_iff split: if_splits)

lemma Model_create_healthy:
  "faults s = [] \<Longrightarrow>
   Model_create dto s =
     (case duplicateKey (docs s) \<lparr>name = name dto, no = no dto, oid = objectId (nextId s)\<rparr> of
        Some kv \<Rightarrow> (Inl (duplicateKeyError kv),
                    s\<lparr>calls := calls s @ [CreateCall dto], nextId := Suc (nextId s)\<rparr>)
      | None \<Rightarrow> (Inr \<lparr>name = name dto, no = no dto, oid = objectId (nextId s)\<rparr>,
                 s\<lparr>calls := calls s @ [CreateCall dto], nextId := Suc (nextId s),
                   docs := docs s @ [\<lparr>name = name dto, no = no dto, oid = objectId (nextId s)\<rparr>]\<rparr>))"
  by (simp add: Model_create_def roundTrip_def logCall_def Let_def split: option.splits)

lemma Model_create_rejected:
  "faults s = Some e # fs \<Longrightarrow>
   Model_create dto s = (Inl e, s\<lparr>calls := calls s @ [CreateCall dto], faults := fs\<rparr>)"
  by (simp add: Model_create_def roundTrip_def logCall_def)

lemma Model_create_Inr:
  assumes "Model_create dto s = (Inr p, s1)"
  shows "p = \<lparr>name = name dto, no = no dto, oid = objectId (nextId s)\<rparr> \<and>
         docs s1 = docs s @ [p] \<and> duplicateKey (docs s) p = None \<and>
         faults s1 = tl (faults s) \<and> calls s1 = calls s @ [CreateCall dto]"
  using assms
  by (auto simp: Model_create_def roundTrip_def logCall_def Let_def
      split: option.splits list.splits)

lemma Model_create_docs:
  "docs (snd (Model_create dto s)) = docs s \<or>
   docs (snd (Model_create dto s)) = docs s @ [\<lparr>name = name dto, no = no dto, oid = objectId (nextId s)\<rparr>]"
  by (auto simp: Model_create_def roundTrip_def logCall_def Let_def
      split: option.splits list.splits)

lemma create_Inr:
  assumes "create dto s = (Inr p, d, s1)"
  shows "p = \<lparr>name = toLowerCase (name dto), no = no dto, oid = objectId (nextId s)\<rparr>"
    and "docs s1 = docs s @ [p]"
    and "\<forall>q \<in> set (docs s). oid q \<noteq> oid p \<and> name q \<noteq> name p \<and> no q \<noteq> no p"
    and "faults s1 = tl (faults s)"
    and "d = dto\<lparr>name := toLowerCase (name dto)\<rparr>"
proof -
  let ?d = "dto\<lparr>name := toLowerCase (name dto)\<rparr>"
  obtain r s' where m: "Model_create ?d s = (r, s')" by (cases "Model_create ?d s")
  with assms have "r = Inr p" "s' = s1" and d: "d = ?d"
    by (auto simp: create_def toLocaleLowerCase_def Let_def split: sum.splits)
  with m have "Model_create ?d s = (Inr p, s1)" by simp
  note c = Model_create_Inr[OF this]
  from c show "p = \<lparr>name = toLowerCase (name dto), no = no dto, oid = objectId (nextId s)\<rparr>"
    by simp
  from c show "docs s1 = docs s @ [p]" by simp
  from c have "duplicateKey (docs s) p = None" by blast
  then show "\<forall>q \<in> set (docs s). oid q \<noteq> oid p \<and> name q \<noteq> name p \<and> no q \<noteq> no p"
    by (simp add: duplicateKey_None)
  from c show "faults s1 = tl (faults s)" by simp
  from d show "d = ?d" .
qed

lemma length_hexString: "length (hexString k n) = k"
  by (induction k n rule: hexString.induct) simp_all

lemma isHexDigit_hexDigit: "d < 16 \<Longrightarrow> isHexDigit (hexDigit d)"
  by (auto simp: isHexDigit_def hexDigit_def Let_def)

lemma toLowerChar_hexDigit: "d < 16 \<Longrightarrow> toLowerChar (hexDigit d) = hexDigit d"
  by (auto simp: toLowerChar_def hexDigit_def Let_def)

lemma hexString_digits: "list_all isHexDigit (hexString k n)"
  by (induction k n rule: hexString.induct) (simp_all add: isHexDigit_hexDigit)

lemma toLowerCase_hexString: "toLowerCase (hexString k n) = hexString k n"
  by (induction k n rule: hexString.induct)
     (simp_all add: toLowerCase_def toLowerChar_hexDigit)

lemma castObjectId_objectId: "castObjectId (objectId n) = Some (objectId n)"
  by (simp add: castObjectId_def objectId_def length_hexString hexString_digits
      toLowerCase_hexString)

text \<open>
  C2 (as amended). After a valid \<open>create\<close> that succeeds, on a store that answers the next
  calls: \<open>findOne\<close> with the decimal numeral of the record's ordinal returns that record;
  \<open>findOne\<close> with its storage identifier returns it provided no earlier record has the
  ordinal that the identifier reads as a number; \<open>findOne\<close> with its name in any casing
  returns it provided no earlier record has the ordinal the term reads as a number or the
  storage identifier the term casts to. Earlier strategies win over later ones.
\<close>

theorem create_then_findOne:
  assumes valid: "validCreatePokemonDto dto"
    and created: "create dto s = (Inr p, d, s1)"
    and healthy: "faults s1 = []"
  shows "fst (findOne (decimal (nat (no p))) s1) = Inr p \<and>
         ((\<forall>q \<in> set (docs s). Integer (no q) \<noteq> toNumber (oid p)) \<longrightarrow>
            fst (findOne (oid p) s1) = Inr p) \<and>
         (\<forall>t. toLowerCase t = toLowerCase (name dto) \<and>
              (\<forall>q \<in> set (docs s). Integer (no q) \<noteq> toNumber t \<and> castObjectId t \<noteq> Some (oid q)) \<longrightarrow>
              fst (findOne t s1) = Inr p)"
proof -
  note p = create_Inr(1)[OF created] and ds = create_Inr(2)[OF created]
    and fresh = create_Inr(3)[OF created]
  have pos: "0 < no p" and num: "isNumberValue (int (nat (no p)))"
    using valid p by (simp_all add: validCreatePokemonDto_def)
  have byNo: "find (\<lambda>q. Integer (no q) = Integer (no p)) (docs s1) = Some p"
    using fresh by (simp add: ds find_snoc find_None_conv[THEN iffD2])
  have byId: "find (\<lambda>q. oid q = oid p) (docs s1) = Some p"
    using fresh by (simp add: ds find_snoc find_None_conv[THEN iffD2])
  have byName: "find (\<lambda>q. name q = name p) (docs s1) = Some p"
    using fresh by (simp add: ds find_snoc find_None_conv[THEN iffD2])
  have other: "find P (docs s1) = None \<or> find P (docs s1) = Some p"
    if "\<forall>q \<in> set (docs s). \<not> P q" for P
    using that by (simp add: ds find_snoc find_None_conv[THEN iffD2])
  have one: "fst (findOne (decimal (nat (no p))) s1) = Inr p"
    using pos byNo
    by (simp add: findOne_healthy[OF healthy] toNumber_decimal[OF num] isNaN_def)
  have two: "fst (findOne (oid p) s1) = Inr p"
    if h: "\<forall>q \<in> set (docs s). Integer (no q) \<noteq> toNumber (oid p)"
  proof -
    have c: "castObjectId (oid p) = Some (oid p)"
      by (simp add: p castObjectId_objectId)
    from other[of "\<lambda>q. Integer (no q) = toNumber (oid p)"] h
    have "find (\<lambda>q. Integer (no q) = toNumber (oid p)) (docs s1) = None \<or>
          find (\<lambda>q. Integer (no q) = toNumber (oid p)) (docs s1) = Some p" by simp
    then show ?thesis
      by (auto simp: findOne_healthy[OF healthy] c byId)
  qed
  have three: "fst (findOne t s1) = Inr p"
    if h: "toLowerCase t = toLowerCase (name dto)"
      "\<forall>q \<in> set (docs s). Integer (no q) \<noteq> toNumber t \<and> castObjectId t \<noteq> Some (oid q)" for t
  proof -
    have n: "toLowerCase t = name p" using h(1) p by simp
    from other[of "\<lambda>q. Integer (no q) = toNumber t"] h(2)
    have a: "find (\<lambda>q. Integer (no q) = toNumber t) (docs s1) = None \<or>
          find (\<lambda>q. Integer (no q) = toNumber t) (docs s1) = Some p" by simp
    have b: "find (\<lambda>q. oid q = i) (docs s1) = None \<or> find (\<lambda>q. oid q = i) (docs s1) = Some p"
      if "castObjectId t = Some i" for i
      using other[of "\<lambda>q. oid q = i"] h(2) that by auto
    show ?thesis
      using a b by (auto simp: findOne_healthy[OF healthy] n byName split: option.splits)
  qed
  from one two three show ?thesis by blast
qed

lemma objectId_1: "objectId (Suc 0) = ''000000000000000000000001''"
  by code_simp

lemma toNumber_123: "toNumber ''123'' = Integer 123"
  by code_simp

lemma create_pikachu:
  "create pikachuDto catalog = (Inr pikachu, \<lparr>name = ''pikachu'', no = 25\<rparr>, catalogWithPikachu)"
proof -
  have l: "toLowerCase ''Pikachu'' = ''pikachu''" by code_simp
  show ?thesis
    by (simp add: create_def toLocaleLowerCase_def Model_create_healthy duplicateKey_def
        catalog_def pikachuDto_def pikachu_def catalogWithPikachu_def bulbasaur_def
        objectId_1 l Let_def)
qed

lemma create_numericName:
  "create numericDto catalog = (Inr numericName, numericDto, catalogWithNumericName)"
proof -
  have l: "toLowerCase ''123'' = ''123''" by code_simp
  show ?thesis
    by (simp add: create_def toLocaleLowerCase_def Model_create_healthy duplicateKey_def
        catalog_def numericDto_def numericName_def catalogWithNumericName_def bulbasaur_def
        objectId_1 l Let_def)
qed

text \<open>The theorem for \<open>Pikachu\<close>, number 25, created in a catalog holding one record.\<close>

theorem create_then_findOne_witness:
  "validCreatePokemonDto pikachuDto \<and>
   create pikachuDto catalog = (Inr pikachu, \<lparr>name = ''pikachu'', no = 25\<rparr>, catalogWithPikachu) \<and>
   faults catalogWithPikachu = [] \<and>
   fst (findOne ''25'' catalogWithPikachu) = Inr pikachu \<and>
   fst (findOne ''000000000000000000000001'' catalogWithPikachu) = Inr pikachu \<and>
   fst (findOne ''PikaCHU'' catalogWithPikachu) = Inr pikachu"
proof -
  have h1: "validCreatePokemonDto pikachuDto" by code_simp
  note h2 = create_pikachu
  have h3: "faults catalogWithPikachu = []" by (simp add: catalogWithPikachu_def)
  note t = create_then_findOne [OF h1 h2 h3]
  have d: "decimal (nat (no pikachu)) = ''25''" by code_simp
  have i: "oid pikachu = ''000000000000000000000001''" by (simp add: pikachu_def)
  have n: "toNumber ''000000000000000000000001'' = Integer 1" by code_simp
  have a: "\<forall>q \<in> set (docs catalog). Integer (no q) \<noteq> toNumber (oid pikachu)"
    by (simp add: i n catalog_def bulbasaur_def)
  have b1: "toLowerCase ''PikaCHU'' = toLowerCase (name pikachuDto)" by code_simp
  have b2: "toNumber ''PikaCHU'' = NaN" by code_simp
  have b3: "castObjectId ''PikaCHU'' = None" by code_simp
  have b: "toLowerCase ''PikaCHU'' = toLowerCase (name pikachuDto) \<and>
           (\<forall>q \<in> set (docs catalog). Integer (no q) \<noteq> toNumber ''PikaCHU'' \<and>
              castObjectId ''PikaCHU'' \<noteq> Some (oid q))"
    by (simp add: b1 b2 b3)
  from t have "fst (findOne (decimal (nat (no pikachu))) catalogWithPikachu) = Inr pikachu"
    by blast
  then have one: "fst (findOne ''25'' catalogWithPikachu) = Inr pikachu" by (simp only: d)
  from t a have "fst (findOne (oid pikachu) catalogWithPikachu) = Inr pikachu" by blast
  then have two: "fst (findOne ''000000000000000000000001'' catalogWithPikachu) = Inr pikachu"
    by (simp only: i)
  from t b have three: "fst (findOne ''PikaCHU'' catalogWithPikachu) = Inr pikachu" by blast
  from h1 h2 h3 one two three show ?thesis by blast
qed

text \<open>
  C2 as stated fails: a record named \<open>123\<close> is created with success, and resolving its
  name returns the other record, whose ordinal is 123.
\<close>

theorem create_then_findOne_counterexample:
  "validCreatePokemonDto numericDto \<and>
   create numericDto catalog = (Inr numericName, numericDto, catalogWithNumericName) \<and>
   faults catalogWithNumericName = [] \<and>
   fst (findOne ''123'' catalogWithNumericName) = Inr bulbasaur \<and>
   bulbasaur \<noteq> numericName"
proof -
  have "validCreatePokemonDto numericDto" by code_simp
  moreover have "faults catalogWithNumericName = []" by (simp add: catalogWithNumericName_def)
  moreover have "fst (findOne ''123'' catalogWithNumericName) = Inr bulbasaur"
    by (simp add: findOne_healthy toNumber_123 isNaN_def catalogWithNumericName_def bulbasaur_def)
  moreover have "bulbasaur \<noteq> numericName" by (simp add: bulbasaur_def numericName_def)
  ultimately show ?thesis using create_numericName by simp
qed

section \<open>Updating and removing records\<close>

lemma normalized_name:
  "(if truthy (upd_name u) then u\<lparr>upd_name := map_option toLowerCase (upd_name u)\<rparr> else u) =
   u\<lparr>upd_name := map_option toLowerCase (upd_name u)\<rparr>"
  by (cases "upd_name u") (auto simp: truthy_def toLowerCase_def)

lemma update_resolved:
  assumes "findOne term s = (Inr p, s1)"
  shows "update term u s =
     (case Document_updateOne p (u\<lparr>upd_name := map_option toLowerCase (upd_name u)\<rparr>) s1 of
        (Inr v, s2) \<Rightarrow>
          (Inr (spread p (u\<lparr>upd_name := map_option toLowerCase (upd_name u)\<rparr>)),
           u\<lparr>upd_name := map_option toLowerCase (upd_name u)\<rparr>, s2)
      | (Inl e, s2) \<Rightarrow>
          (Inl (handleExceptions e), u\<lparr>upd_name := map_option toLowerCase (upd_name u)\<rparr>, s2))"
  using assms by (simp add: update_def normalized_name Let_def)

lemma update_unresolved:
  assumes "findOne term s = (Inl e, s1)"
  shows "update term u s = (Inl e, u, s1)"
  using assms by (simp add: update_def)

lemma Document_updateOne_healthy:
  "faults s = [] \<Longrightarrow>
   Document_updateOne p u s =
     (if list_ex (\<lambda>q. oid q = oid p) (docs s)
      then case updateConflict (docs s) (oid p) u of
             Some kv \<Rightarrow> (Inl (duplicateKeyError kv), s\<lparr>calls := calls s @ [UpdateOneCall (oid p) u]\<rparr>)
           | None \<Rightarrow> (Inr (), s\<lparr>calls := calls s @ [UpdateOneCall (oid p) u],
                          docs := updateFirst (\<lambda>q. oid q = oid p) (\<lambda>q. spread q u) (docs s)\<rparr>)
      else (Inr (), s\<lparr>calls := calls s @ [UpdateOneCall (oid p) u]\<rparr>))"
  by (simp add: Document_updateOne_def roundTrip_def logCall_def split: option.splits)

lemma Document_updateOne_rejected:
  "faults s = Some e # fs \<Longrightarrow>
   Document_updateOne p u s = (Inl e, s\<lparr>calls := calls s @ [UpdateOneCall (oid p) u], faults := fs\<rparr>)"
  by (simp add: Document_updateOne_def roundTrip_def logCall_def)

lemma Document_updateOne_docs:
  "docs (snd (Document_updateOne p u s)) = docs s \<or>
   docs (snd (Document_updateOne p u s)) =
     updateFirst (\<lambda>q. oid q = oid p) (\<lambda>q. spread q u) (docs s)"
  by (auto simp: Document_updateOne_def roundTrip_def logCall_def
      split: option.splits list.splits)

lemma updateConflict_None:
  "(updateConflict ds i u = None) =
   ((\<forall>n. upd_name u = Some n \<longrightarrow> (\<forall>q \<in> set ds. oid q \<noteq> i \<longrightarrow> name q \<noteq> n)) \<and>
    (\<forall>k. upd_no u = Some k \<longrightarrow> (\<forall>q \<in> set ds. oid q \<noteq> i \<longrightarrow> no q \<noteq> k)))"
  by (auto simp: updateConflict_def list_ex_iff split: option.splits)

lemma findOne_found_stored:
  assumes "findOne term s = (Inr p, s1)"
  shows "p \<in> set (docs s)"
  using assms
  by (auto simp: findOne_def await_def Model_findOne_no_def Model_findOne_name_def
      Model_findById_def Let_def roundTrip_def logCall_def
      split: if_splits option.splits sum.splits list.splits prod.splits
      dest!: find_Some_in)

text \<open>
  C4. When the term resolves to a record and the write is accepted (the store answers, and no
  other record holds the supplied name or ordinal), \<open>update\<close> returns the loaded record
  overridden by the supplied fields, a supplied name in lower case, and the write is the last
  call made: the value is not read back from the store.
\<close>

theorem update_returns_union:
  assumes resolved: "findOne term s = (Inr p, s1)"
    and healthy: "faults s1 = []"
    and unique: "(\<forall>n. upd_name u = Some n \<longrightarrow>
                    (\<forall>q \<in> set (docs s). oid q \<noteq> oid p \<longrightarrow> name q \<noteq> toLowerCase n)) \<and>
                 (\<forall>k. upd_no u = Some k \<longrightarrow>
                    (\<forall>q \<in> set (docs s). oid q \<noteq> oid p \<longrightarrow> no q \<noteq> k))"
  shows "fst (update term u s) =
           Inr \<lparr>name = (case upd_name u of Some n \<Rightarrow> toLowerCase n | None \<Rightarrow> name p),
                no = (case upd_no u of Some k \<Rightarrow> k | None \<Rightarrow> no p),
                oid = oid p\<rparr> \<and>
         calls (snd (snd (update term u s))) =
           calls s1 @ [UpdateOneCall (oid p) (u\<lparr>upd_name := map_option toLowerCase (upd_name u)\<rparr>)]"
proof -
  let ?u = "u\<lparr>upd_name := map_option toLowerCase (upd_name u)\<rparr>"
  have d: "docs s1 = docs s"
    using findOne_frame[of "term" s] resolved by simp
  have c: "updateConflict (docs s1) (oid p) ?u = None"
    using unique by (auto simp: updateConflict_None d)
  have sp: "spread p ?u =
      \<lparr>name = (case upd_name u of Some n \<Rightarrow> toLowerCase n | None \<Rightarrow> name p),
       no = (case upd_no u of Some k \<Rightarrow> k | None \<Rightarrow> no p), oid = oid p\<rparr>"
    by (cases p) (simp add: spread_def split: option.splits)
  show ?thesis
    by (simp add: update_resolved[OF resolved] Document_updateOne_healthy[OF healthy] c sp)
qed

text \<open>The theorem for the term \<open>123\<close> and a new name and ordinal.\<close>

theorem update_returns_union_witness:
  "findOne ''123'' catalog = (Inr bulbasaur, catalog\<lparr>calls := [FindOneByNo (Integer 123)]\<rparr>) \<and>
   faults (catalog\<lparr>calls := [FindOneByNo (Integer 123)]\<rparr>) = [] \<and>
   fst (update ''123'' venusaurUpdate catalog) =
     Inr \<lparr>name = ''venusaur'', no = 3, oid = ''000000000000000000000000''\<rparr> \<and>
   calls (snd (snd (update ''123'' venusaurUpdate catalog))) =
     [FindOneByNo (Integer 123),
      UpdateOneCall ''000000000000000000000000'' \<lparr>upd_name = Some ''venusaur'', upd_no = Some 3\<rparr>]"
proof -
  have l: "toLowerCase ''Venusaur'' = ''venusaur''" by code_simp
  have h1: "findOne ''123'' catalog =
              (Inr bulbasaur, catalog\<lparr>calls := [FindOneByNo (Integer 123)]\<rparr>)"
    by (simp add: findOne_def await_def Model_findOne_no_healthy Model_findOne_name_healthy
        toNumber_123 isNaN_def catalog_def bulbasaur_def logCall_def)
  have h2: "faults (catalog\<lparr>calls := [FindOneByNo (Integer 123)]\<rparr>) = []"
    by (simp add: catalog_def)
  have h3: "(\<forall>n. upd_name venusaurUpdate = Some n \<longrightarrow>
                    (\<forall>q \<in> set (docs catalog). oid q \<noteq> oid bulbasaur \<longrightarrow> name q \<noteq> toLowerCase n)) \<and>
            (\<forall>k. upd_no venusaurUpdate = Some k \<longrightarrow>
                    (\<forall>q \<in> set (docs catalog). oid q \<noteq> oid bulbasaur \<longrightarrow> no q \<noteq> k))"
    by (simp add: catalog_def)
  from update_returns_union [OF h1 h2 h3] h1 h2 show ?thesis
    by (simp add: venusaurUpdate_def bulbasaur_def l)
qed

text \<open>
  C7. When \<open>findOne\<close> raises \<open>NotFoundException\<close> for the term, \<open>update\<close> raises the same
  exception, the documents are unchanged, and every call made was a read.
\<close>

theorem update_not_found:
  assumes "fst (findOne term s) = Inl (NotFoundException m)"
  shows "fst (update term u s) = Inl (NotFoundException m) \<and>
         docs (snd (snd (update term u s))) = docs s \<and>
         (\<exists>qs. calls (snd (snd (update term u s))) = calls s @ qs \<and>
               list_all (\<lambda>c. \<not> isWrite c) qs)"
proof -
  obtain s1 where f: "findOne term s = (Inl (NotFoundException m), s1)"
    using assms by (cases "findOne term s") simp
  have "snd (snd (update term u s)) = snd (findOne term s)"
    by (simp add: update_unresolved[OF f] f)
  then show ?thesis
    using findOne_frame[of "term" s] by (simp add: update_unresolved[OF f])
qed

text \<open>The theorem for a term that matches nothing in the catalog.\<close>

theorem update_not_found_witness:
  "fst (findOne ''charmander'' catalog) = Inl (NotFoundException ''charmander'') \<and>
   fst (update ''charmander'' venusaurUpdate catalog) = Inl (NotFoundException ''charmander'') \<and>
   docs (snd (snd (update ''charmander'' venusaurUpdate catalog))) = docs catalog \<and>
   calls (snd (snd (update ''charmander'' venusaurUpdate catalog))) =
     [FindOneByName ''charmander'']"
proof -
  have n: "toNumber ''charmander'' = NaN" by code_simp
  have c: "castObjectId ''charmander'' = None" by code_simp
  have l: "toLowerCase ''charmander'' = ''charmander''" by code_simp
  have h: "fst (findOne ''charmander'' catalog) = Inl (NotFoundException ''charmander'')"
    by (simp add: findOne_healthy n c l isNaN_def catalog_def bulbasaur_def)
  have f: "findOne ''charmander'' catalog =
       (Inl (NotFoundException ''charmander''), catalog\<lparr>calls := [FindOneByName ''charmander'']\<rparr>)"
    by (simp add: findOne_def await_def Model_findOne_name_healthy isValidObjectId_def
        toLocaleLowerCase_def n c l isNaN_def catalog_def bulbasaur_def logCall_def)
  from update_not_found [OF h, of venusaurUpdate] h show ?thesis
    by (simp add: update_unresolved[OF f])
qed

lemma Model_deleteOne_healthy:
  "faults s = [] \<Longrightarrow> castObjectId v = Some i \<Longrightarrow>
   Model_deleteOne v s =
     (if list_ex (\<lambda>q. oid q = i) (docs s)
      then (Inr \<lparr>deletedCount = 1\<rparr>,
            s\<lparr>calls := calls s @ [DeleteOneCall v], docs := removeFirst (\<lambda>q. oid q = i) (docs s)\<rparr>)
      else (Inr \<lparr>deletedCount = 0\<rparr>, s\<lparr>calls := calls s @ [DeleteOneCall v]\<rparr>))"
  by (simp add: Model_deleteOne_def roundTrip_def logCall_def Let_def)

lemma Model_deleteOne_rejected:
  "faults s = Some e # fs \<Longrightarrow> castObjectId v = Some i \<Longrightarrow>
   Model_deleteOne v s = (Inl e, s\<lparr>calls := calls s @ [DeleteOneCall v], faults := fs\<rparr>)"
  by (simp add: Model_deleteOne_def roundTrip_def logCall_def Let_def)

lemma length_removeFirst:
  "list_ex P xs \<Longrightarrow> Suc (length (removeFirst P xs)) = length xs"
  by (induction xs) auto

lemma set_removeFirst: "set (removeFirst P xs) \<subseteq> set xs"
  by (induction xs) auto

lemma Model_findOne_no_eq:
  "Model_findOne_no n s =
     (case faults s of Some e # fs \<Rightarrow> Inl e
      | _ \<Rightarrow> Inr (find (\<lambda>p. Integer (no p) = n) (docs s)),
      s\<lparr>calls := calls s @ [FindOneByNo n], faults := tl (faults s)\<rparr>)"
  by (simp add: Model_findOne_no_def roundTrip_def logCall_def split: list.splits option.splits)

lemma Model_findOne_name_eq:
  "Model_findOne_name n s =
     (case faults s of Some e # fs \<Rightarrow> Inl e
      | _ \<Rightarrow> Inr (find (\<lambda>p. name p = n) (docs s)),
      s\<lparr>calls := calls s @ [FindOneByName n], faults := tl (faults s)\<rparr>)"
  by (simp add: Model_findOne_name_def roundTrip_def logCall_def split: list.splits option.splits)

lemma Model_findById_eq:
  "castObjectId v = Some i \<Longrightarrow>
   Model_findById v s =
     (case faults s of Some e # fs \<Rightarrow> Inl e
      | _ \<Rightarrow> Inr (find (\<lambda>p. oid p = i) (docs s)),
      s\<lparr>calls := calls s @ [FindById v], faults := tl (faults s)\<rparr>)"
  by (simp add: Model_findById_def Let_def roundTrip_def logCall_def
      split: list.splits option.splits)

lemma findOne_rejected_first:
  assumes "faults s = Some e # fs"
  shows "fst (findOne tm s) = Inl (Uncaught e)"
  using assms
  by (cases "castObjectId tm")
     (simp_all add: findOne_def await_def isValidObjectId_def Model_findOne_no_eq
       Model_findOne_name_eq Model_findById_eq)

lemma fault_shapes:
  fixes xs :: "'a option list"
  shows "xs = [] \<or> (\<exists>e fs. xs = Some e # fs) \<or> xs = [None] \<or>
         (\<exists>e fs. xs = None # Some e # fs) \<or> xs = [None, None] \<or>
         (\<exists>e fs. xs = None # None # Some e # fs) \<or> (\<exists>fs. xs = None # None # None # fs)"
proof (cases xs)
  case Nil
  then show ?thesis by simp
next
  case c1: (Cons a ys)
  show ?thesis
  proof (cases a)
    case (Some e)
    with c1 show ?thesis by simp
  next
    case n1: None
    show ?thesis
    proof (cases ys)
      case Nil
      with c1 n1 show ?thesis by simp
    next
      case c2: (Cons b zs)
      show ?thesis
      proof (cases b)
        case (Some e)
        with c1 n1 c2 show ?thesis by simp
      next
        case n2: None
        show ?thesis
        proof (cases zs)
          case Nil
          with c1 n1 c2 n2 show ?thesis by simp
        next
          case c3: (Cons c ws)
          show ?thesis
          proof (cases c)
            case (Some e)
            with c1 n1 c2 n2 c3 show ?thesis by simp
          next
            case None
            with c1 n1 c2 n2 c3 show ?thesis by simp
          qed
        qed
      qed
    qed
  qed
qed

lemmas findOne_unfold =
  findOne_def await_def isValidObjectId_def Model_findOne_no_eq Model_findOne_name_eq
  Model_findById_eq rejections_def

lemma findOne_raises:
  assumes "fst (findOne tm s) = Inl x"
  shows "x = NotFoundException tm \<or> (\<exists>e. x = Uncaught e)"
proof (cases "castObjectId tm")
  case None
  from fault_shapes[of "faults s"] assms show ?thesis
    by (elim disjE exE) (auto simp: findOne_unfold None split: if_splits option.splits)
next
  case (Some i)
  from fault_shapes[of "faults s"] assms show ?thesis
    by (elim disjE exE) (auto simp: findOne_unfold Some split: if_splits option.splits)
qed

lemma findOne_rejections:
  "(fst (findOne tm s) = Inl (Uncaught e)) = (rejections s (snd (findOne tm s)) = [e])"
proof (cases "castObjectId tm")
  case None
  from fault_shapes[of "faults s"] show ?thesis
    by (elim disjE exE) (auto simp: findOne_unfold None split: if_splits option.splits)
next
  case (Some i)
  from fault_shapes[of "faults s"] show ?thesis
    by (elim disjE exE) (auto simp: findOne_unfold Some split: if_splits option.splits)
qed

text \<open>
  C3 (as amended). The error of a rejected insert in \<open>create\<close>, and of a rejected write in
  \<open>update\<close>, is translated once by \<open>handleExceptions\<close>: code 11000 becomes
  \<open>BadRequestException\<close>, anything else \<open>InternalServerErrorException\<close>. The error of a
  rejected \<open>deleteOne\<close> in \<open>remove\<close> is not translated: it leaves the method as the store
  raised it, and \<open>remove\<close> raises its own \<open>NotFoundException\<close> when nothing was deleted.
  \<open>findOne\<close> fails with the untranslated error of a store call exactly when one of its
  calls is rejected, and otherwise only with \<open>NotFoundException\<close>; whatever it raises passes
  through \<open>update\<close> unchanged.
\<close>

theorem store_failure_translation:
  "(Model_create (dto\<lparr>name := toLowerCase (name dto)\<rparr>) s = (Inl e, s') \<longrightarrow>
      fst (create dto s) = Inl (handleExceptions e)) \<and>
   (findOne tm s = (Inr p, s1) \<and>
    Document_updateOne p (u\<lparr>upd_name := map_option toLowerCase (upd_name u)\<rparr>) s1 = (Inl e, s2) \<longrightarrow>
      fst (update tm u s) = Inl (handleExceptions e)) \<and>
   (Model_deleteOne v s = (Inl e, s') \<longrightarrow> fst (remove v s) = Inl (Uncaught e)) \<and>
   (Model_deleteOne v s = (Inr r, s') \<and> deletedCount r = 0 \<longrightarrow>
      fst (remove v s) = Inl (NotFoundException v)) \<and>
   (fst (findOne tm s) = Inl (Uncaught e)) = (rejections s (snd (findOne tm s)) = [e]) \<and>
   (faults s = Some e # fs \<longrightarrow>
      fst (findOne tm s) = Inl (Uncaught e) \<and> fst (update tm u s) = Inl (Uncaught e)) \<and>
   (fst (findOne tm s) = Inl x \<longrightarrow>
      fst (update tm u s) = Inl x \<and> (x = NotFoundException tm \<or> (\<exists>e'. x = Uncaught e'))) \<and>
   handleExceptions e =
     (if code e = Some 11000 then BadRequestException (keyValue e)
      else InternalServerErrorException)"
proof -
  have a: "fst (create dto s) = Inl (handleExceptions e)"
    if "Model_create (dto\<lparr>name := toLowerCase (name dto)\<rparr>) s = (Inl e, s')"
    using that by (simp add: create_def toLocaleLowerCase_def)
  have b: "fst (update tm u s) = Inl (handleExceptions e)"
    if "findOne tm s = (Inr p, s1)"
      "Document_updateOne p (u\<lparr>upd_name := map_option toLowerCase (upd_name u)\<rparr>) s1 = (Inl e, s2)"
    using that by (simp add: update_resolved)
  have c: "fst (remove v s) = Inl (Uncaught e)" if "Model_deleteOne v s = (Inl e, s')"
    using that by (simp add: remove_def)
  have c': "fst (remove v s) = Inl (NotFoundException v)"
    if "Model_deleteOne v s = (Inr r, s')" "deletedCount r = 0"
    using that by (simp add: remove_def)
  have d: "fst (update tm u s) = Inl y" if "fst (findOne tm s) = Inl y" for y
    using that by (cases "findOne tm s") (simp add: update_def)
  have f: "fst (findOne tm s) = Inl (Uncaught e) \<and> fst (update tm u s) = Inl (Uncaught e)"
    if "faults s = Some e # fs"
    using findOne_rejected_first[OF that] d by simp
  have g: "fst (update tm u s) = Inl x \<and> (x = NotFoundException tm \<or> (\<exists>e'. x = Uncaught e'))"
    if "fst (findOne tm s) = Inl x"
    using that d findOne_raises by blast
  have h: "handleExceptions e =
     (if code e = Some 11000 then BadRequestException (keyValue e)
      else InternalServerErrorException)"
    by (simp add: handleExceptions_def)
  from a b c c' f g h findOne_rejections[of tm s e] show ?thesis by blast
qed

text \<open>
  C3 as stated fails for delete: the store rejects the call with an error that is not a
  duplicate key, and \<open>remove\<close> fails with that error, not with
  \<open>InternalServerErrorException\<close>.
\<close>

theorem store_failure_translation_counterexample:
  "faults faultyStore = [Some networkError] \<and> code networkError \<noteq> Some 11000 \<and>
   fst (remove ''000000000000000000000000'' faultyStore) = Inl (Uncaught networkError) \<and>
   fst (remove ''000000000000000000000000'' faultyStore) \<noteq> Inl InternalServerErrorException"
proof -
  have c: "castObjectId ''000000000000000000000000'' = Some ''000000000000000000000000''"
    by code_simp
  have f: "faults faultyStore = [Some networkError]" by (simp add: faultyStore_def)
  show ?thesis
    by (simp add: remove_def Model_deleteOne_rejected[OF f c] f networkError_def)
qed

text \<open>
  C10 (as amended). \<open>create\<close> leaves its input with the name in lower case, whether the
  insert succeeds or fails. \<open>update\<close> leaves the supplied partial with the name in lower
  case when the term resolves, whether the write succeeds or fails; when resolving the term
  fails, the partial is left as supplied.
\<close>

theorem input_objects_after_call:
  "fst (snd (create dto s)) = dto\<lparr>name := toLowerCase (name dto)\<rparr> \<and>
   (fst (findOne tm s) = Inr p \<longrightarrow>
      fst (snd (update tm u s)) = u\<lparr>upd_name := map_option toLowerCase (upd_name u)\<rparr>) \<and>
   (fst (findOne tm s) = Inl x \<longrightarrow> fst (snd (update tm u s)) = u)"
proof -
  have a: "fst (snd (create dto s)) = dto\<lparr>name := toLowerCase (name dto)\<rparr>"
    by (simp add: create_def toLocaleLowerCase_def Let_def split: prod.splits sum.splits)
  have b: "fst (snd (update tm u s)) = u\<lparr>upd_name := map_option toLowerCase (upd_name u)\<rparr>"
    if h: "fst (findOne tm s) = Inr p"
  proof -
    obtain s1 where "findOne tm s = (Inr p, s1)"
      using h by (cases "findOne tm s") simp
    then show ?thesis
      by (simp add: update_resolved split: prod.splits sum.splits)
  qed
  have c: "fst (snd (update tm u s)) = u" if "fst (findOne tm s) = Inl x"
    using that by (cases "findOne tm s") (simp add: update_def)
  show ?thesis using a b c by simp
qed

text \<open>
  C10 as stated fails: \<open>update\<close> of a term that matches nothing fails with
  \<open>NotFoundException\<close> and the partial still holds the name in upper case.
\<close>

theorem input_objects_after_call_counterexample:
  "fst (update ''charmander'' shoutedUpdate catalog) = Inl (NotFoundException ''charmander'') \<and>
   upd_name (fst (snd (update ''charmander'' shoutedUpdate catalog))) = Some ''PIKA'' \<and>
   toLowerCase ''PIKA'' = ''pika''"
proof -
  have n: "toNumber ''charmander'' = NaN" by code_simp
  have c: "castObjectId ''charmander'' = None" by code_simp
  have l: "toLowerCase ''charmander'' = ''charmander''" by code_simp
  have f: "findOne ''charmander'' catalog =
       (Inl (NotFoundException ''charmander''), catalog\<lparr>calls := [FindOneByName ''charmander'']\<rparr>)"
    by (simp add: findOne_def await_def Model_findOne_name_healthy isValidObjectId_def
        toLocaleLowerCase_def n c l isNaN_def catalog_def bulbasaur_def logCall_def)
  have p: "toLowerCase ''PIKA'' = ''pika''" by code_simp
  show ?thesis
    by (simp add: update_unresolved[OF f] shoutedUpdate_def p)
qed

lemma findOne_123_catalog:
  "findOne ''123'' catalog = (Inr bulbasaur, catalog\<lparr>calls := [FindOneByNo (Integer 123)]\<rparr>)"
  by (simp add: findOne_def await_def Model_findOne_no_healthy Model_findOne_name_healthy
      toNumber_123 isNaN_def catalog_def bulbasaur_def logCall_def)

lemma findOne_charmander_catalog:
  "findOne ''charmander'' catalog =
     (Inl (NotFoundException ''charmander''), catalog\<lparr>calls := [FindOneByName ''charmander'']\<rparr>)"
proof -
  have n: "toNumber ''charmander'' = NaN" by code_simp
  have c: "castObjectId ''charmander'' = None" by code_simp
  have l: "toLowerCase ''charmander'' = ''charmander''" by code_simp
  show ?thesis
    by (simp add: findOne_def await_def Model_findOne_name_healthy isValidObjectId_def
        toLocaleLowerCase_def n c l isNaN_def catalog_def bulbasaur_def logCall_def)
qed

lemma castObjectId_zero:
  "castObjectId ''000000000000000000000000'' = Some ''000000000000000000000000''"
  by code_simp

lemma toNumber_5: "toNumber ''5'' = Integer 5"
  by code_simp

lemma findOne_5_catalogWithNumericName:
  "findOne ''5'' catalogWithNumericName =
     (Inr numericName,
      catalogWithNumericName\<lparr>calls := [CreateCall numericDto, FindOneByNo (Integer 5)]\<rparr>)"
  by (simp add: findOne_def await_def Model_findOne_no_healthy
      toNumber_5 isNaN_def catalogWithNumericName_def bulbasaur_def numericName_def logCall_def)

text \<open>
  The theorem on an insert and a delete that the store rejects, on an update that violates
  the unique name index, and on an update of a term that matches nothing.
\<close>

theorem store_failure_translation_witness:
  "fst (Model_create (pikachuDto\<lparr>name := toLowerCase (name pikachuDto)\<rparr>) faultyStore) =
     Inl networkError \<and>
   fst (create pikachuDto faultyStore) = Inl InternalServerErrorException \<and>
   fst (findOne ''5'' catalogWithNumericName) = Inr numericName \<and>
   fst (Document_updateOne numericName
          (bulbasaurRename\<lparr>upd_name := map_option toLowerCase (upd_name bulbasaurRename)\<rparr>)
          (snd (findOne ''5'' catalogWithNumericName))) = Inl duplicateNameError \<and>
   fst (update ''5'' bulbasaurRename catalogWithNumericName) =
     Inl (BadRequestException (Some (KeyName ''bulbasaur''))) \<and>
   fst (Model_deleteOne ''000000000000000000000000'' faultyStore) = Inl networkError \<and>
   fst (remove ''000000000000000000000000'' faultyStore) = Inl (Uncaught networkError) \<and>
   fst (Model_deleteOne ''000000000000000000000009'' catalog) = Inr \<lparr>deletedCount = 0\<rparr> \<and>
   fst (remove ''000000000000000000000009'' catalog) =
     Inl (NotFoundException ''000000000000000000000009'') \<and>
   faults faultyStore = [Some networkError] \<and>
   fst (findOne ''123'' faultyStore) = Inl (Uncaught networkError) \<and>
   fst (update ''123'' venusaurUpdate faultyStore) = Inl (Uncaught networkError) \<and>
   rejections faultyStore (snd (findOne ''123'' faultyStore)) = [networkError] \<and>
   fst (findOne ''charmander'' catalog) = Inl (NotFoundException ''charmander'') \<and>
   fst (update ''charmander'' venusaurUpdate catalog) = Inl (NotFoundException ''charmander'')"
proof -
  have f: "faults faultyStore = [Some networkError]" by (simp add: faultyStore_def)
  have h: "faults catalog = []" by (simp add: catalog_def)
  have l: "toLowerCase ''Bulbasaur'' = ''bulbasaur''" by code_simp
  let ?d = "pikachuDto\<lparr>name := toLowerCase (name pikachuDto)\<rparr>"
  let ?u = "bulbasaurRename\<lparr>upd_name := map_option toLowerCase (upd_name bulbasaurRename)\<rparr>"
  let ?s1 = "catalogWithNumericName\<lparr>calls := [CreateCall numericDto, FindOneByNo (Integer 5)]\<rparr>"
  let ?i = "''000000000000000000000000''" and ?j = "''000000000000000000000009''"
  have cj: "castObjectId ?j = Some ?j" by code_simp
  have c1: "Model_create ?d faultyStore =
      (Inl networkError, faultyStore\<lparr>calls := calls faultyStore @ [CreateCall ?d], faults := []\<rparr>)"
    by (rule Model_create_rejected[OF f])
  have c2: "Document_updateOne numericName ?u ?s1 =
      (Inl duplicateNameError,
       ?s1\<lparr>calls := calls ?s1 @ [UpdateOneCall (oid numericName) ?u]\<rparr>)"
    by (simp add: Document_updateOne_healthy updateConflict_def duplicateKeyError_def
        duplicateNameError_def catalogWithNumericName_def bulbasaur_def numericName_def
        bulbasaurRename_def l)
  have c3: "Model_deleteOne ?i faultyStore =
      (Inl networkError, faultyStore\<lparr>calls := calls faultyStore @ [DeleteOneCall ?i], faults := []\<rparr>)"
    by (rule Model_deleteOne_rejected[OF f castObjectId_zero])
  have c4: "fst (findOne ''charmander'' catalog) = Inl (NotFoundException ''charmander'')"
    by (simp add: findOne_charmander_catalog)
  have c5: "Model_deleteOne ?j catalog =
      (Inr \<lparr>deletedCount = 0\<rparr>, catalog\<lparr>calls := calls catalog @ [DeleteOneCall ?j]\<rparr>)"
    by (simp add: Model_deleteOne_healthy[OF h cj]) (simp add: catalog_def bulbasaur_def)
  note r = findOne_5_catalogWithNumericName
  have w1: "fst (create pikachuDto faultyStore) = Inl (handleExceptions networkError)"
    using store_failure_translation [where dto = pikachuDto and s = faultyStore and e = networkError]
      c1 by blast
  have w2: "fst (update ''5'' bulbasaurRename catalogWithNumericName) =
              Inl (handleExceptions duplicateNameError)"
    using store_failure_translation
      [where e = duplicateNameError and tm = "''5''" and s = catalogWithNumericName
         and p = numericName and ?s1.0 = ?s1 and u = bulbasaurRename]
      r c2 by blast
  have w3: "fst (remove ?i faultyStore) = Inl (Uncaught networkError)"
    using store_failure_translation [where s = faultyStore and e = networkError and v = ?i]
      c3 by blast
  have w4: "fst (update ''charmander'' venusaurUpdate catalog) =
              Inl (NotFoundException ''charmander'')"
    using store_failure_translation
      [where s = catalog and tm = "''charmander''" and u = venusaurUpdate
         and x = "NotFoundException ''charmander''"]
      c4 by blast
  have w5: "fst (remove ?j catalog) = Inl (NotFoundException ?j)"
    using store_failure_translation
      [where s = catalog and v = ?j and r = "\<lparr>deletedCount = 0\<rparr>"] c5 by simp
  note t = store_failure_translation
      [where s = faultyStore and tm = "''123''" and u = venusaurUpdate and e = networkError
         and fs = "[]"]
  from t f have w6: "fst (findOne ''123'' faultyStore) = Inl (Uncaught networkError)"
    and w7: "fst (update ''123'' venusaurUpdate faultyStore) = Inl (Uncaught networkError)"
    by blast+
  from t w6 have w8: "rejections faultyStore (snd (findOne ''123'' faultyStore)) = [networkError]"
    by blast
  have h1: "handleExceptions networkError = InternalServerErrorException"
    by (simp add: handleExceptions_def networkError_def)
  have h2: "handleExceptions duplicateNameError = BadRequestException (Some (KeyName ''bulbasaur''))"
    by (simp add: handleExceptions_def duplicateNameError_def)
  show ?thesis
    using w1 w2 w3 w4 w5 w6 w7 w8 c4 f by (simp add: c1 c2 c3 c5 r h1 h2)
qed

text \<open>The theorem on the catalog, for a term that resolves and one that does not.\<close>

theorem input_objects_after_call_witness:
  "fst (snd (create pikachuDto catalog)) = \<lparr>name = ''pikachu'', no = 25\<rparr> \<and>
   fst (findOne ''123'' catalog) = Inr bulbasaur \<and>
   fst (snd (update ''123'' shoutedUpdate catalog)) = \<lparr>upd_name = Some ''pika'', upd_no = None\<rparr> \<and>
   fst (findOne ''5'' catalog) = Inl (NotFoundException ''5'') \<and>
   fst (snd (update ''5'' shoutedUpdate catalog)) = shoutedUpdate"
proof -
  have l1: "toLowerCase ''Pikachu'' = ''pikachu''" by code_simp
  have l2: "toLowerCase ''PIKA'' = ''pika''" by code_simp
  have l3: "toLowerCase ''5'' = ''5''" by code_simp
  have c: "castObjectId ''5'' = None" by code_simp
  have a: "fst (findOne ''123'' catalog) = Inr bulbasaur"
    by (simp add: findOne_123_catalog)
  have b: "fst (findOne ''5'' catalog) = Inl (NotFoundException ''5'')"
    by (simp add: findOne_healthy toNumber_5 isNaN_def c l3 catalog_def bulbasaur_def)
  note t1 = input_objects_after_call
    [where dto = pikachuDto and s = catalog and tm = "''123''" and p = bulbasaur
       and u = shoutedUpdate]
  note t2 = input_objects_after_call
    [where dto = pikachuDto and s = catalog and tm = "''5''" and u = shoutedUpdate
       and x = "NotFoundException ''5''"]
  from t1 have "fst (snd (create pikachuDto catalog)) =
      pikachuDto\<lparr>name := toLowerCase (name pikachuDto)\<rparr>" by blast
  then have w1: "fst (snd (create pikachuDto catalog)) = \<lparr>name = ''pikachu'', no = 25\<rparr>"
    by (simp add: pikachuDto_def l1)
  from t1 a have "fst (snd (update ''123'' shoutedUpdate catalog)) =
      shoutedUpdate\<lparr>upd_name := map_option toLowerCase (upd_name shoutedUpdate)\<rparr>" by blast
  then have w2: "fst (snd (update ''123'' shoutedUpdate catalog)) =
      \<lparr>upd_name = Some ''pika'', upd_no = None\<rparr>"
    by (simp add: shoutedUpdate_def l2)
  from t2 b have w3: "fst (snd (update ''5'' shoutedUpdate catalog)) = shoutedUpdate" by blast
  from w1 w2 w3 a b show ?thesis by simp
qed

section \<open>Stored names and removal\<close>

lemma Model_deleteOne_docs:
  "docs (snd (Model_deleteOne v s)) = docs s \<or>
   (\<exists>i. docs (snd (Model_deleteOne v s)) = removeFirst (\<lambda>q. oid q = i) (docs s))"
  by (auto simp: Model_deleteOne_def Let_def roundTrip_def logCall_def
      split: option.splits list.splits)

lemma spread_fields:
  "oid (spread q u) = oid q"
  "name (spread q u) = (case upd_name u of Some n \<Rightarrow> n | None \<Rightarrow> name q)"
  "no (spread q u) = (case upd_no u of Some k \<Rightarrow> k | None \<Rightarrow> no q)"
  by (simp_all add: spread_def)

lemma find_updateFirst:
  assumes "list_ex P xs" "\<And>x. P x \<Longrightarrow> P (f x)"
  shows "\<exists>x \<in> set xs. find P (updateFirst P f xs) = Some (f x)"
  using assms by (induction xs) auto

lemma Document_updateOne_Inr:
  assumes "Document_updateOne p u s = (Inr v, s')"
  shows "docs s' = (if list_ex (\<lambda>q. oid q = oid p) (docs s)
                    then updateFirst (\<lambda>q. oid q = oid p) (\<lambda>q. spread q u) (docs s)
                    else docs s)"
  using assms
  by (auto simp: Document_updateOne_def roundTrip_def logCall_def
      split: option.splits list.splits if_splits)

lemma lowerCaseNames_snoc:
  "lowerCaseNames (xs @ [p]) =
   (lowerCaseNames xs \<and> list_all (\<lambda>c. \<not> isUpperCase c) (name p))"
  by (simp add: lowerCaseNames_def)

lemma lowerCaseNames_updateFirst:
  assumes "lowerCaseNames xs"
    and "\<And>q. list_all (\<lambda>c. \<not> isUpperCase c) (name q) \<Longrightarrow>
           list_all (\<lambda>c. \<not> isUpperCase c) (name (f q))"
  shows "lowerCaseNames (updateFirst P f xs)"
  using assms by (induction xs) (auto simp: lowerCaseNames_def)

lemma lowerCaseNames_removeFirst:
  "lowerCaseNames xs \<Longrightarrow> lowerCaseNames (removeFirst P xs)"
  by (induction xs) (auto simp: lowerCaseNames_def)

lemma update_docs:
  "docs (snd (snd (update tm u s))) = docs s \<or>
   (\<exists>p :: Pokemon. docs (snd (snd (update tm u s))) =
      updateFirst (\<lambda>q. oid q = oid p)
        (\<lambda>q. spread q (u\<lparr>upd_name := map_option toLowerCase (upd_name u)\<rparr>)) (docs s))"
proof (cases "findOne tm s")
  case (Pair r s1)
  have d: "docs s1 = docs s" using findOne_frame[of tm s] Pair by simp
  show ?thesis
  proof (cases r)
    case (Inl e)
    then show ?thesis using Pair d by (simp add: update_unresolved)
  next
    case (Inr p)
    let ?u = "u\<lparr>upd_name := map_option toLowerCase (upd_name u)\<rparr>"
    from Inr Pair have f: "findOne tm s = (Inr p, s1)" by simp
    have e: "docs (snd (snd (update tm u s))) = docs (snd (Document_updateOne p ?u s1))"
      by (simp add: update_resolved[OF f] split: prod.splits sum.splits)
    from Document_updateOne_docs[of p ?u s1] show ?thesis
    proof
      assume "docs (snd (Document_updateOne p ?u s1)) = docs s1"
      then show ?thesis using e d by simp
    next
      assume "docs (snd (Document_updateOne p ?u s1)) =
                updateFirst (\<lambda>q. oid q = oid p) (\<lambda>q. spread q ?u) (docs s1)"
      then have "docs (snd (snd (update tm u s))) =
                updateFirst (\<lambda>q. oid q = oid p) (\<lambda>q. spread q ?u) (docs s)"
        using e d by simp
      then show ?thesis by blast
    qed
  qed
qed

text \<open>
  C6. A successful \<open>create\<close> stores the lower-case form of the supplied name; a successful
  \<open>update\<close> that supplies a name leaves the updated document with its lower-case form; and
  if no stored name contains an upper-case character before \<open>create\<close>, \<open>update\<close> or
  \<open>remove\<close>, none does afterwards.
\<close>

theorem names_stored_lowercase:
  "(create dto s = (Inr p, d, s') \<longrightarrow> name p = toLowerCase (name dto) \<and> p \<in> set (docs s')) \<and>
   (update tm u s = (Inr r, u', s') \<and> upd_name u = Some n \<longrightarrow>
      (\<exists>q. find (\<lambda>q. oid q = oid r) (docs s') = Some q \<and> name q = toLowerCase n)) \<and>
   (lowerCaseNames (docs s) \<longrightarrow>
      lowerCaseNames (docs (snd (snd (create dto s)))) \<and>
      lowerCaseNames (docs (snd (snd (update tm u s)))) \<and>
      lowerCaseNames (docs (snd (remove v s))))"
proof -
  let ?u = "u\<lparr>upd_name := map_option toLowerCase (upd_name u)\<rparr>"
  have a: "name p = toLowerCase (name dto) \<and> p \<in> set (docs s')"
    if c: "create dto s = (Inr p, d, s')"
    using create_Inr(1)[OF c] create_Inr(2)[OF c] by simp
  have b: "\<exists>q. find (\<lambda>q. oid q = oid r) (docs s') = Some q \<and> name q = toLowerCase n"
    if up: "update tm u s = (Inr r, u', s')" and nm: "upd_name u = Some n"
  proof -
    obtain x s1 where f0: "findOne tm s = (x, s1)" by (cases "findOne tm s")
    with up obtain p0 where f: "findOne tm s = (Inr p0, s1)"
      by (cases x) (auto simp: update_def)
    obtain y s2 where w0: "Document_updateOne p0 ?u s1 = (y, s2)"
      by (cases "Document_updateOne p0 ?u s1")
    with up f obtain v where w: "Document_updateOne p0 ?u s1 = (Inr v, s2)"
      and r: "r = spread p0 ?u" and s2: "s2 = s'"
      by (cases y) (auto simp: update_resolved)
    have d: "docs s1 = docs s" using findOne_frame[of tm s] f by simp
    have "p0 \<in> set (docs s1)" using findOne_found_stored[OF f] d by simp
    then have ex: "list_ex (\<lambda>q. oid q = oid p0) (docs s1)" by (auto simp: list_ex_iff)
    from Document_updateOne_Inr[OF w] ex s2
    have ds: "docs s' = updateFirst (\<lambda>q. oid q = oid p0) (\<lambda>q. spread q ?u) (docs s1)"
      by simp
    from find_updateFirst[OF ex, of "\<lambda>q. spread q ?u"]
    obtain q0 where "find (\<lambda>q. oid q = oid p0) (docs s') = Some (spread q0 ?u)"
      by (auto simp: ds spread_fields)
    moreover have "name (spread q0 ?u) = toLowerCase n" by (simp add: spread_fields nm)
    moreover have "oid r = oid p0" by (simp add: r spread_fields)
    ultimately show ?thesis by simp
  qed
  have c: "lowerCaseNames (docs (snd (snd (create dto s)))) \<and>
      lowerCaseNames (docs (snd (snd (update tm u s)))) \<and>
      lowerCaseNames (docs (snd (remove v s)))"
    if inv: "lowerCaseNames (docs s)"
  proof -
    let ?d = "dto\<lparr>name := toLowerCase (name dto)\<rparr>"
    have "docs (snd (snd (create dto s))) = docs (snd (Model_create ?d s))"
      by (simp add: create_def Let_def toLocaleLowerCase_def split: prod.splits sum.splits)
    with Model_create_docs[of ?d s] inv
    have c1: "lowerCaseNames (docs (snd (snd (create dto s))))"
      by (auto simp: lowerCaseNames_snoc toLowerCase_no_upper)
    have keep: "list_all (\<lambda>c. \<not> isUpperCase c) (name (spread q ?u))"
      if "list_all (\<lambda>c. \<not> isUpperCase c) (name q)" for q
      using that by (cases "upd_name u") (simp_all add: spread_fields toLowerCase_no_upper)
    have upd: "lowerCaseNames (updateFirst P (\<lambda>q. spread q ?u) (docs s))" for P
      by (rule lowerCaseNames_updateFirst[OF inv]) (rule keep)
    from update_docs[of tm u s]
    have c2: "lowerCaseNames (docs (snd (snd (update tm u s))))"
    proof
      assume "docs (snd (snd (update tm u s))) = docs s"
      then show ?thesis using inv by simp
    next
      assume "\<exists>p :: Pokemon. docs (snd (snd (update tm u s))) =
                updateFirst (\<lambda>q. oid q = oid p) (\<lambda>q. spread q ?u) (docs s)"
      then obtain p1 :: Pokemon where "docs (snd (snd (update tm u s))) =
                updateFirst (\<lambda>q. oid q = oid p1) (\<lambda>q. spread q ?u) (docs s)" by blast
      then show ?thesis using upd by simp
    qed
    have "docs (snd (remove v s)) = docs (snd (Model_deleteOne v s))"
      by (simp add: remove_def split: prod.splits sum.splits)
    with Model_deleteOne_docs[of v s] inv
    have c3: "lowerCaseNames (docs (snd (remove v s)))"
      by (auto simp: lowerCaseNames_removeFirst)
    from c1 c2 c3 show ?thesis by simp
  qed
  from a b c show ?thesis by blast
qed


lemma update_123_catalog:
  "update ''123'' venusaurUpdate catalog =
     (Inr renamedBulbasaur, \<lparr>upd_name = Some ''venusaur'', upd_no = Some 3\<rparr>, renamedCatalog)"
proof -
  have l: "toLowerCase ''Venusaur'' = ''venusaur''" by code_simp
  show ?thesis
    unfolding update_resolved[OF findOne_123_catalog]
    by (simp add: Document_updateOne_healthy
        updateConflict_def spread_def venusaurUpdate_def catalog_def bulbasaur_def
        renamedBulbasaur_def renamedCatalog_def l)
qed

text \<open>The theorem for \<open>Pikachu\<close> created, and a record renamed \<open>Venusaur\<close>.\<close>

theorem names_stored_lowercase_witness:
  "create pikachuDto catalog = (Inr pikachu, \<lparr>name = ''pikachu'', no = 25\<rparr>, catalogWithPikachu) \<and>
   name pikachu = ''pikachu'' \<and> pikachu \<in> set (docs catalogWithPikachu) \<and>
   update ''123'' venusaurUpdate catalog =
     (Inr renamedBulbasaur, \<lparr>upd_name = Some ''venusaur'', upd_no = Some 3\<rparr>, renamedCatalog) \<and>
   upd_name venusaurUpdate = Some ''Venusaur'' \<and>
   find (\<lambda>q. oid q = oid renamedBulbasaur) (docs renamedCatalog) = Some renamedBulbasaur \<and>
   name renamedBulbasaur = ''venusaur'' \<and>
   lowerCaseNames (docs catalog) \<and>
   lowerCaseNames (docs catalogWithPikachu) \<and>
   lowerCaseNames (docs renamedCatalog) \<and>
   lowerCaseNames (docs (snd (remove ''000000000000000000000000'' catalog)))"
proof -
  have l1: "toLowerCase ''Pikachu'' = ''pikachu''" by code_simp
  have l2: "toLowerCase ''Venusaur'' = ''venusaur''" by code_simp
  have n: "upd_name venusaurUpdate = Some ''Venusaur''" by (simp add: venusaurUpdate_def)
  have inv: "lowerCaseNames (docs catalog)" by code_simp
  note t = names_stored_lowercase
    [where dto = pikachuDto and s = catalog and p = pikachu
       and d = "\<lparr>name = ''pikachu'', no = 25\<rparr>" and s' = catalogWithPikachu and n = "''Venusaur''"
       and v = "''000000000000000000000000''"]
  note t2 = names_stored_lowercase
    [where s = catalog and tm = "''123''" and u = venusaurUpdate and r = renamedBulbasaur
       and u' = "\<lparr>upd_name = Some ''venusaur'', upd_no = Some 3\<rparr>" and s' = renamedCatalog
       and n = "''Venusaur''" and dto = pikachuDto and v = "''000000000000000000000000''"]
  from t create_pikachu have "name pikachu = toLowerCase (name pikachuDto)"
    and w2: "pikachu \<in> set (docs catalogWithPikachu)" by blast+
  then have w1: "name pikachu = ''pikachu''" by (simp add: pikachuDto_def l1)
  from t2 update_123_catalog n
  obtain q where q: "find (\<lambda>q. oid q = oid renamedBulbasaur) (docs renamedCatalog) = Some q"
    "name q = toLowerCase ''Venusaur''" by blast
  from q(1) have qr: "q = renamedBulbasaur" by (simp add: renamedCatalog_def)
  from q qr have w3: "find (\<lambda>q. oid q = oid renamedBulbasaur) (docs renamedCatalog) =
      Some renamedBulbasaur" and w4: "name renamedBulbasaur = ''venusaur''"
    by (simp_all add: l2)
  from t2 inv have i1: "lowerCaseNames (docs (snd (snd (create pikachuDto catalog))))"
    and i2: "lowerCaseNames (docs (snd (snd (update ''123'' venusaurUpdate catalog))))"
    and i3: "lowerCaseNames (docs (snd (remove ''000000000000000000000000'' catalog)))"
    by blast+
  from i1 have i1': "lowerCaseNames (docs catalogWithPikachu)" by (simp add: create_pikachu)
  from i2 have i2': "lowerCaseNames (docs renamedCatalog)" by (simp add: update_123_catalog)
  from w1 w2 w3 w4 n inv i1' i2' i3 show ?thesis
    by (simp add: create_pikachu update_123_catalog)
qed

text \<open>
  C8. For a well-formed storage identifier on a store that answers, \<open>remove\<close> raises
  \<open>NotFoundException\<close> exactly when no document was removed, which is exactly when no
  document has that identifier, and then the documents are unchanged; otherwise it returns the
  acknowledgement, which carries a message only, and one document is gone.
\<close>

theorem remove_not_found_iff:
  assumes healthy: "faults s = []" and valid: "isValidObjectId v"
  shows "(fst (remove v s) = Inl (NotFoundException v)) =
           (length (docs (snd (remove v s))) = length (docs s)) \<and>
         (fst (remove v s) = Inl (NotFoundException v)) =
           (\<forall>q \<in> set (docs s). castObjectId v \<noteq> Some (oid q)) \<and>
         (fst (remove v s) = Inl (NotFoundException v) \<longrightarrow> docs (snd (remove v s)) = docs s) \<and>
         (fst (remove v s) \<noteq> Inl (NotFoundException v) \<longrightarrow>
            fst (remove v s) = Inr \<lparr>message = ''Pokemon eliminado''\<rparr> \<and>
            Suc (length (docs (snd (remove v s)))) = length (docs s) \<and>
            set (docs (snd (remove v s))) \<subseteq> set (docs s))"
proof -
  obtain i where i: "castObjectId v = Some i"
    using valid by (auto simp: isValidObjectId_def)
  show ?thesis
  proof (cases "list_ex (\<lambda>q. oid q = i) (docs s)")
    case True
    then have "\<not> (\<forall>q \<in> set (docs s). castObjectId v \<noteq> Some (oid q))"
      by (auto simp: list_ex_iff i)
    then show ?thesis
      using True length_removeFirst[OF True] set_removeFirst[of "\<lambda>q. oid q = i" "docs s"]
      by (simp add: remove_def Model_deleteOne_healthy[OF healthy i])
  next
    case False
    then have "\<forall>q \<in> set (docs s). castObjectId v \<noteq> Some (oid q)"
      by (auto simp: list_ex_iff i)
    then show ?thesis
      using False by (simp add: remove_def Model_deleteOne_healthy[OF healthy i])
  qed
qed

text \<open>The theorem for the identifier of the stored record and for an unknown one.\<close>

theorem remove_not_found_iff_witness:
  "faults catalog = [] \<and> isValidObjectId ''000000000000000000000000'' \<and>
   isValidObjectId ''000000000000000000000009'' \<and>
   fst (remove ''000000000000000000000000'' catalog) = Inr \<lparr>message = ''Pokemon eliminado''\<rparr> \<and>
   docs (snd (remove ''000000000000000000000000'' catalog)) = [] \<and>
   fst (remove ''000000000000000000000009'' catalog) =
     Inl (NotFoundException ''000000000000000000000009'') \<and>
   docs (snd (remove ''000000000000000000000009'' catalog)) = docs catalog"
proof -
  let ?a = "''000000000000000000000000''" and ?b = "''000000000000000000000009''"
  have h: "faults catalog = []" by (simp add: catalog_def)
  have c9: "castObjectId ?b = Some ?b" by code_simp
  have v0: "isValidObjectId ?a"
    by (simp add: isValidObjectId_def castObjectId_zero)
  have v9: "isValidObjectId ?b"
    by (simp add: isValidObjectId_def c9)
  have a: "\<not> (\<forall>q \<in> set (docs catalog). castObjectId ?a \<noteq> Some (oid q))"
    by (simp add: catalog_def bulbasaur_def castObjectId_zero)
  have b: "\<forall>q \<in> set (docs catalog). castObjectId ?b \<noteq> Some (oid q)"
    by (simp add: catalog_def bulbasaur_def c9)
  have l: "length (docs catalog) = Suc 0" by (simp add: catalog_def)
  note t0 = remove_not_found_iff [OF h v0]
  from t0 a have n0: "fst (remove ?a catalog) \<noteq> Inl (NotFoundException ?a)" by blast
  from t0 n0 have r0: "fst (remove ?a catalog) = Inr \<lparr>message = ''Pokemon eliminado''\<rparr>"
    and "Suc (length (docs (snd (remove ?a catalog)))) = length (docs catalog)"
    by blast+
  then have d0: "docs (snd (remove ?a catalog)) = []" by (simp add: l)
  note t9 = remove_not_found_iff [OF h v9]
  from t9 b have r9: "fst (remove ?b catalog) = Inl (NotFoundException ?b)" by blast
  from t9 r9 have d9: "docs (snd (remove ?b catalog)) = docs catalog" by blast
  from h v0 v9 r0 d0 r9 d9 show ?thesis by blast
qed

section \<open>Duplicate keys\<close>

lemma duplicateKey_collision:
  assumes "q \<in> set ds" "name q = name p \<or> no q = no p"
  shows "\<exists>kv. duplicateKey ds p = Some kv"
  using assms by (auto simp: duplicateKey_def list_ex_iff)

text \<open>
  C5. On a store that answers and holds no record in conflict with the first input, the first
  \<open>create\<close> succeeds, and a second \<open>create\<close> with the same ordinal, or the same name up to
  casing, fails with \<open>BadRequestException\<close> carrying a key that the new document shares with
  a stored one, and stores nothing. A rejection of the insert with any code other than 11000
  makes \<open>create\<close> fail with \<open>InternalServerErrorException\<close>.
\<close>

theorem create_duplicate:
  "(faults s = [] \<and>
    (\<forall>q \<in> set (docs s). oid q \<noteq> objectId (nextId s) \<and>
        name q \<noteq> toLowerCase (name dto1) \<and> no q \<noteq> no dto1) \<and>
    (no dto2 = no dto1 \<or> toLowerCase (name dto2) = toLowerCase (name dto1)) \<longrightarrow>
      (\<exists>p s1 kv.
         create dto1 s = (Inr p, dto1\<lparr>name := toLowerCase (name dto1)\<rparr>, s1) \<and>
         fst (create dto2 s1) = Inl (BadRequestException (Some kv)) \<and>
         holdsKey \<lparr>name = toLowerCase (name dto2), no = no dto2, oid = objectId (nextId s1)\<rparr> kv \<and>
         (\<exists>q \<in> set (docs s1). holdsKey q kv) \<and>
         docs (snd (snd (create dto2 s1))) = docs s1)) \<and>
   (faults s = Some e # fs \<and> code e \<noteq> Some 11000 \<longrightarrow>
      fst (create dto1 s) = Inl InternalServerErrorException)"
proof -
  have first: "\<exists>p s1 kv.
         create dto1 s = (Inr p, dto1\<lparr>name := toLowerCase (name dto1)\<rparr>, s1) \<and>
         fst (create dto2 s1) = Inl (BadRequestException (Some kv)) \<and>
         holdsKey \<lparr>name = toLowerCase (name dto2), no = no dto2, oid = objectId (nextId s1)\<rparr> kv \<and>
         (\<exists>q \<in> set (docs s1). holdsKey q kv) \<and>
         docs (snd (snd (create dto2 s1))) = docs s1"
    if healthy: "faults s = []"
      and free: "\<forall>q \<in> set (docs s). oid q \<noteq> objectId (nextId s) \<and>
        name q \<noteq> toLowerCase (name dto1) \<and> no q \<noteq> no dto1"
      and same: "no dto2 = no dto1 \<or> toLowerCase (name dto2) = toLowerCase (name dto1)"
  proof -
    let ?d1 = "dto1\<lparr>name := toLowerCase (name dto1)\<rparr>"
    let ?p = "\<lparr>name = toLowerCase (name dto1), no = no dto1, oid = objectId (nextId s)\<rparr>"
    let ?s1 = "s\<lparr>calls := calls s @ [CreateCall ?d1], nextId := Suc (nextId s),
                  docs := docs s @ [?p]\<rparr>"
    let ?d2 = "dto2\<lparr>name := toLowerCase (name dto2)\<rparr>"
    let ?p2 = "\<lparr>name = toLowerCase (name dto2), no = no dto2, oid = objectId (nextId ?s1)\<rparr>"
    have none: "duplicateKey (docs s) ?p = None"
      using free by (simp add: duplicateKey_None)
    have c1: "create dto1 s = (Inr ?p, ?d1, ?s1)"
      by (simp add: create_def Let_def toLocaleLowerCase_def Model_create_healthy[OF healthy] none)
    have h1: "faults ?s1 = []" using healthy by simp
    have "?p \<in> set (docs ?s1)" "name ?p = name ?p2 \<or> no ?p = no ?p2"
      using same by auto
    from duplicateKey_collision[OF this]
    obtain kv where kv: "duplicateKey (docs ?s1) ?p2 = Some kv" by blast
    have m2: "Model_create ?d2 ?s1 =
        (Inl (duplicateKeyError kv),
         ?s1\<lparr>calls := calls ?s1 @ [CreateCall ?d2], nextId := Suc (nextId ?s1)\<rparr>)"
      using kv by (simp add: Model_create_healthy[OF h1])
    have c2: "fst (create dto2 ?s1) = Inl (BadRequestException (Some kv))"
      "docs (snd (snd (create dto2 ?s1))) = docs ?s1"
      by (simp_all add: create_def Let_def toLocaleLowerCase_def m2 handleExceptions_def
          duplicateKeyError_def)
    from duplicateKey_Some[OF kv]
    have k: "holdsKey ?p2 kv" "\<exists>q \<in> set (docs ?s1). holdsKey q kv" by blast+
    from c1 c2 k show ?thesis by blast
  qed
  have second: "fst (create dto1 s) = Inl InternalServerErrorException"
    if "faults s = Some e # fs" "code e \<noteq> Some 11000"
    using that
    by (simp add: create_def Let_def toLocaleLowerCase_def Model_create_rejected handleExceptions_def)
  from first second show ?thesis by blast
qed


lemma objectId_2: "objectId 2 = ''000000000000000000000002''"
  by code_simp

text \<open>The theorem for \<open>Pikachu\<close> followed by \<open>PIKACHU\<close>, and on a store that rejects the insert.\<close>

theorem create_duplicate_witness:
  "faults catalog = [] \<and>
   create pikachuDto catalog = (Inr pikachu, \<lparr>name = ''pikachu'', no = 25\<rparr>, catalogWithPikachu) \<and>
   toLowerCase (name shoutedPikachuDto) = toLowerCase (name pikachuDto) \<and>
   fst (create shoutedPikachuDto catalogWithPikachu) =
     Inl (BadRequestException (Some (KeyName ''pikachu''))) \<and>
   docs (snd (snd (create shoutedPikachuDto catalogWithPikachu))) = docs catalogWithPikachu \<and>
   faults faultyStore = [Some networkError] \<and> code networkError \<noteq> Some 11000 \<and>
   fst (create pikachuDto faultyStore) = Inl InternalServerErrorException"
proof -
  have l1: "toLowerCase ''Pikachu'' = ''pikachu''" by code_simp
  have l2: "toLowerCase ''PIKACHU'' = ''pikachu''" by code_simp
  have h1: "faults catalog = []" by (simp add: catalog_def)
  have h2: "\<forall>q \<in> set (docs catalog). oid q \<noteq> objectId (nextId catalog) \<and>
        name q \<noteq> toLowerCase (name pikachuDto) \<and> no q \<noteq> no pikachuDto"
    by (simp add: catalog_def bulbasaur_def pikachuDto_def objectId_1 l1)
  have h3: "toLowerCase (name shoutedPikachuDto) = toLowerCase (name pikachuDto)"
    by (simp add: shoutedPikachuDto_def pikachuDto_def l1 l2)
  have f1: "faults faultyStore = [Some networkError]" by (simp add: faultyStore_def)
  have f2: "code networkError \<noteq> Some 11000" by (simp add: networkError_def)
  note t = create_duplicate
    [where s = catalog and ?dto1.0 = pikachuDto and ?dto2.0 = shoutedPikachuDto]
  from t h1 h2 h3 obtain p s1 kv where
    c1: "create pikachuDto catalog = (Inr p, pikachuDto\<lparr>name := toLowerCase (name pikachuDto)\<rparr>, s1)"
    and c2: "fst (create shoutedPikachuDto s1) = Inl (BadRequestException (Some kv))"
    and k1: "holdsKey \<lparr>name = toLowerCase (name shoutedPikachuDto), no = no shoutedPikachuDto,
                       oid = objectId (nextId s1)\<rparr> kv"
    and k2: "\<exists>q \<in> set (docs s1). holdsKey q kv"
    and c3: "docs (snd (snd (create shoutedPikachuDto s1))) = docs s1"
    by blast
  from c1 create_pikachu have s1: "s1 = catalogWithPikachu" by simp
  have kv: "kv = KeyName ''pikachu''"
  proof (cases kv)
    case (KeyId i)
    with k1 k2 show ?thesis
      by (auto simp: s1 catalogWithPikachu_def bulbasaur_def pikachu_def objectId_2)
  next
    case (KeyName n)
    with k1 show ?thesis by (simp add: shoutedPikachuDto_def l2)
  next
    case (KeyNo k)
    with k1 k2 show ?thesis
      by (simp add: s1 catalogWithPikachu_def bulbasaur_def pikachu_def shoutedPikachuDto_def)
  qed
  note t2 = create_duplicate
    [where s = faultyStore and ?dto1.0 = pikachuDto and e = networkError and fs = "[]"]
  from t2 f1 f2 have w2: "fst (create pikachuDto faultyStore) = Inl InternalServerErrorException"
    by blast
  from c2 c3 show ?thesis
    by (simp add: s1 kv h1 h3 f1 f2 w2 create_pikachu)
qed

section \<open>Listing records\<close>

lemma Model_find_healthy:
  "faults s = [] \<Longrightarrow>
   Model_find l k s =
     (Inr (if l = 0 then drop k (sort_key no (docs s))
           else take l (drop k (sort_key no (docs s)))),
      s\<lparr>calls := calls s @ [FindCall l k]\<rparr>)"
  by (simp add: Model_find_def roundTrip_def logCall_def Let_def)

lemma Model_find_page:
  assumes "fst (Model_find l k s) = Inr ps"
  shows "ps = (if l = 0 then drop k (sort_key no (docs s))
               else take l (drop k (sort_key no (docs s))))"
  using assms
  by (auto simp: Model_find_def roundTrip_def logCall_def Let_def
      split: list.splits option.splits if_splits)

lemma sorted_page:
  "sorted (map no (drop k (sort_key no ds)))"
  "sorted (map no (take l (drop k (sort_key no ds))))"
proof -
  have s: "sorted (map no (sort_key no ds))" by (rule sorted_sort_key)
  then show "sorted (map no (drop k (sort_key no ds)))"
    by (simp add: drop_map[symmetric] sorted_wrt_drop)
  then show "sorted (map no (take l (drop k (sort_key no ds))))"
    by (simp add: take_map[symmetric] sorted_wrt_take)
qed

lemma set_page:
  "set (drop k (sort_key no ds)) \<subseteq> set ds"
  "set (take l (drop k (sort_key no ds))) \<subseteq> set ds"
proof -
  show a: "set (drop k (sort_key no ds)) \<subseteq> set ds"
    using set_drop_subset[of k "sort_key no ds"] by simp
  show "set (take l (drop k (sort_key no ds))) \<subseteq> set ds"
    using set_take_subset[of l "drop k (sort_key no ds)"] a by blast
qed

lemma ordinals_one_to_five:
  assumes "distinct (map no ds)" "set (map no ds) = {1, 2, 3, 4, 5}"
  shows "map no (sort_key no ds) = [1, 2, 3, 4, 5]"
proof (rule sorted_distinct_set_unique)
  show "sorted (map no (sort_key no ds))" by (rule sorted_sort_key)
  have "card (set (map no (sort_key no ds))) = card (set (map no ds))" by simp
  also have "\<dots> = length (map no ds)" using assms(1) by (rule distinct_card)
  finally have "card (set (map no (sort_key no ds))) = length (map no (sort_key no ds))"
    by simp
  then show "distinct (map no (sort_key no ds))" by (rule card_distinct)
  show "sorted [1, 2, 3, 4, 5 :: int]" by simp
  show "distinct [1, 2, 3, 4, 5 :: int]" by simp
  show "set (map no (sort_key no ds)) = set [1, 2, 3, 4, 5]" using assms(2) by simp
qed

text \<open>
  C9. An omitted page size is the configured default and an omitted offset is 0. On a store
  that answers, \<open>findAll\<close> issues one query carrying that page size and offset and returns
  the documents sorted ascending by ordinal, without the first \<open>offset\<close> of them and cut to
  the page size (a page size of 0 does not cut). Every page that \<open>findAll\<close> returns is
  sorted ascending by ordinal and holds stored records; and on a store whose ordinals are
  1 to 5, a page size of 3 at offset 0 returns the records with ordinals 1, 2, 3 in that
  order.
\<close>

theorem findAll_page:
  "findAll defaultLimit \<lparr>limit = None, offset = k\<rparr> s =
     findAll defaultLimit \<lparr>limit = Some defaultLimit, offset = k\<rparr> s \<and>
   findAll defaultLimit \<lparr>limit = l, offset = None\<rparr> s =
     findAll defaultLimit \<lparr>limit = l, offset = Some 0\<rparr> s \<and>
   (faults s = [] \<longrightarrow>
      findAll defaultLimit \<lparr>limit = Some n, offset = Some j\<rparr> s =
        (Inr (if n = 0 then drop j (sort_key no (docs s))
              else take n (drop j (sort_key no (docs s)))),
         s\<lparr>calls := calls s @ [FindCall n j]\<rparr>)) \<and>
   (\<forall>ps. fst (findAll defaultLimit paginationDto s) = Inr ps \<longrightarrow>
      sorted (map no ps) \<and> set ps \<subseteq> set (docs s)) \<and>
   (faults s = [] \<and> distinct (map no (docs s)) \<and> set (map no (docs s)) = {1, 2, 3, 4, 5} \<longrightarrow>
      (\<exists>ps. fst (findAll defaultLimit \<lparr>limit = Some 3, offset = Some 0\<rparr> s) = Inr ps \<and>
            map no ps = [1, 2, 3] \<and> set ps \<subseteq> set (docs s)))"
proof -
  have a: "findAll defaultLimit \<lparr>limit = None, offset = k\<rparr> s =
     findAll defaultLimit \<lparr>limit = Some defaultLimit, offset = k\<rparr> s"
    by (simp add: findAll_def)
  have b: "findAll defaultLimit \<lparr>limit = l, offset = None\<rparr> s =
     findAll defaultLimit \<lparr>limit = l, offset = Some 0\<rparr> s"
    by (simp add: findAll_def)
  have p: "findAll defaultLimit \<lparr>limit = Some n, offset = Some j\<rparr> s =
        (Inr (if n = 0 then drop j (sort_key no (docs s))
              else take n (drop j (sort_key no (docs s)))),
         s\<lparr>calls := calls s @ [FindCall n j]\<rparr>)"
    if healthy: "faults s = []"
    by (simp add: findAll_def Model_find_healthy[OF healthy])
  have c: "sorted (map no ps) \<and> set ps \<subseteq> set (docs s)"
    if h: "fst (findAll defaultLimit paginationDto s) = Inr ps" for ps
  proof -
    let ?l = "case limit paginationDto of None \<Rightarrow> defaultLimit | Some v \<Rightarrow> v"
    let ?k = "case offset paginationDto of None \<Rightarrow> 0 | Some v \<Rightarrow> v"
    from h have "fst (Model_find ?l ?k s) = Inr ps"
      by (auto simp: findAll_def Let_def split: prod.splits sum.splits)
    from Model_find_page[OF this] show ?thesis
      by (simp add: sorted_page set_page split: if_splits)
  qed
  have d: "\<exists>ps. fst (findAll defaultLimit \<lparr>limit = Some 3, offset = Some 0\<rparr> s) = Inr ps \<and>
            map no ps = [1, 2, 3] \<and> set ps \<subseteq> set (docs s)"
    if healthy: "faults s = []" and dist: "distinct (map no (docs s))"
      and five: "set (map no (docs s)) = {1, 2, 3, 4, 5}"
  proof -
    let ?ps = "take 3 (sort_key no (docs s))"
    have r: "fst (findAll defaultLimit \<lparr>limit = Some 3, offset = Some 0\<rparr> s) = Inr ?ps"
      by (simp add: findAll_def Model_find_healthy[OF healthy])
    have "map no ?ps = take 3 (map no (sort_key no (docs s)))" by (simp add: take_map)
    then have m: "map no ?ps = [1, 2, 3]"
      by (simp add: ordinals_one_to_five[OF dist five])
    have sub: "set ?ps \<subseteq> set (docs s)" using set_page(2)[of 3 0 "docs s"] by simp
    show ?thesis
      by (rule exI[of _ ?ps]) (simp only: r m sub simp_thms)
  qed
  from a b p c d show ?thesis by blast
qed

text \<open>
  The theorem on a store holding the ordinals 1 to 5 out of order, for the page (3, 0) and
  for the second page of the default size 2.
\<close>

theorem findAll_page_witness:
  "findAll 5 \<lparr>limit = None, offset = Some 1\<rparr> pokedex =
     findAll 5 \<lparr>limit = Some 5, offset = Some 1\<rparr> pokedex \<and>
   findAll 5 \<lparr>limit = Some 3, offset = None\<rparr> pokedex =
     findAll 5 \<lparr>limit = Some 3, offset = Some 0\<rparr> pokedex \<and>
   faults pokedex = [] \<and> distinct (map no (docs pokedex)) \<and>
   set (map no (docs pokedex)) = {1, 2, 3, 4, 5} \<and>
   fst (findAll 5 \<lparr>limit = Some 3, offset = Some 0\<rparr> pokedex) =
     Inr [bulbasaur\<lparr>no := 1\<rparr>, ivysaur, venusaur] \<and>
   sorted (map no [bulbasaur\<lparr>no := 1\<rparr>, ivysaur, venusaur]) \<and>
   map no [bulbasaur\<lparr>no := 1\<rparr>, ivysaur, venusaur] = [1, 2, 3] \<and>
   findAll 2 \<lparr>limit = None, offset = Some 2\<rparr> pokedex =
     (Inr [venusaur, charmander], pokedex\<lparr>calls := [FindCall 2 2]\<rparr>)"
proof -
  let ?page = "[bulbasaur\<lparr>no := 1\<rparr>, ivysaur, venusaur]"
  have h1: "faults pokedex = []" by (simp add: pokedex_def)
  have h2: "distinct (map no (docs pokedex))"
    by (simp add: pokedex_def venusaur_def bulbasaur_def charmeleon_def ivysaur_def
        charmander_def)
  have h3: "set (map no (docs pokedex)) = {1, 2, 3, 4, 5}"
    by (auto simp: pokedex_def venusaur_def bulbasaur_def charmeleon_def ivysaur_def
        charmander_def)
  have srt: "sort_key no (docs pokedex) =
      [bulbasaur\<lparr>no := 1\<rparr>, ivysaur, venusaur, charmander, charmeleon]"
    by (simp add: pokedex_def venusaur_def bulbasaur_def charmeleon_def ivysaur_def
        charmander_def)
  have cl: "calls pokedex = []" by (simp add: pokedex_def)
  note t = findAll_page
    [where defaultLimit = 5 and s = pokedex and k = "Some 1" and l = "Some 3"
       and n = 3 and j = 0 and paginationDto = "\<lparr>limit = Some 3, offset = Some 0\<rparr>"]
  note t2 = findAll_page
    [where defaultLimit = 2 and s = pokedex and k = "Some 2" and n = 2 and j = 2]
  from t have w1: "findAll 5 \<lparr>limit = None, offset = Some 1\<rparr> pokedex =
     findAll 5 \<lparr>limit = Some 5, offset = Some 1\<rparr> pokedex"
    and w2: "findAll 5 \<lparr>limit = Some 3, offset = None\<rparr> pokedex =
     findAll 5 \<lparr>limit = Some 3, offset = Some 0\<rparr> pokedex"
    by blast+
  have "findAll 5 \<lparr>limit = Some 3, offset = Some 0\<rparr> pokedex =
      (Inr (if (3::nat) = 0 then drop 0 (sort_key no (docs pokedex))
            else take 3 (drop 0 (sort_key no (docs pokedex)))),
       pokedex\<lparr>calls := calls pokedex @ [FindCall 3 0]\<rparr>)"
    by (rule t[THEN conjunct2, THEN conjunct2, THEN conjunct1, THEN mp, OF h1])
  then have r: "fst (findAll 5 \<lparr>limit = Some 3, offset = Some 0\<rparr> pokedex) = Inr ?page"
    by (simp add: srt)
  from t[THEN conjunct2, THEN conjunct2, THEN conjunct2, THEN conjunct1, rule_format, OF r]
  have w3: "sorted (map no ?page)" by (rule conjunct1)
  have "\<exists>ps. fst (findAll 5 \<lparr>limit = Some 3, offset = Some 0\<rparr> pokedex) = Inr ps \<and>
            map no ps = [1, 2, 3] \<and> set ps \<subseteq> set (docs pokedex)"
    by (rule t[THEN conjunct2, THEN conjunct2, THEN conjunct2, THEN conjunct2, THEN mp])
       (intro conjI h1 h2 h3)
  then obtain ps where
    "fst (findAll 5 \<lparr>limit = Some 3, offset = Some 0\<rparr> pokedex) = Inr ps"
    "map no ps = [1, 2, 3]" by (elim exE conjE)
  with r have w4: "map no ?page = [1, 2, 3]" by simp
  have "findAll 2 \<lparr>limit = None, offset = Some 2\<rparr> pokedex =
      findAll 2 \<lparr>limit = Some 2, offset = Some 2\<rparr> pokedex"
    by (rule t2[THEN conjunct1])
  also have "\<dots> =
      (Inr (if (2::nat) = 0 then drop 2 (sort_key no (docs pokedex))
            else take 2 (drop 2 (sort_key no (docs pokedex)))),
       pokedex\<lparr>calls := calls pokedex @ [FindCall 2 2]\<rparr>)"
    by (rule t2[THEN conjunct2, THEN conjunct2, THEN conjunct1, THEN mp, OF h1])
  also have "\<dots> = (Inr [venusaur, charmander], pokedex\<lparr>calls := [FindCall 2 2]\<rparr>)"
    by (simp add: srt cl)
  finally have w5: "findAll 2 \<lparr>limit = None, offset = Some 2\<rparr> pokedex =
      (Inr [venusaur, charmander], pokedex\<lparr>calls := [FindCall 2 2]\<rparr>)" .
  from w1 w2 h1 h2 h3 r w3 w4 w5 show ?thesis by (intro conjI)
qed

end
